theory Spec2Isabelle
  imports Complex_Main "HOL-Library.Multiset" "HOL-Library.Log_Nat"
begin

section \<open>JavaScript values\<close>

text \<open>
  The values that travel through the clickstream pipeline are JSON values. A property
  that is absent (JavaScript's \<open>undefined\<close>) is \<open>None\<close> of \<open>jsval option\<close>;
  \<open>JSON.stringify\<close> drops such properties and \<open>JSON.parse\<close> gives them back as
  absent, so the round trip through a file or through the network is the identity on this
  type. An object is the list of its own properties (a key occurs once). JSON numbers are
  kept as rationals; the one computation the program does on fractions (the percentage of
  a quiz) is rounded as IEEE doubles are, see below. JSON arrays as field values are
  outside the model.
\<close>

datatype jsval =
    JNull
  | JBool bool
  | JNum rat
  | JStr string
  | JObj "(string \<times> jsval) list"

text \<open>The result of a numeric conversion: a finite number, an infinity or \<open>NaN\<close>.\<close>

datatype jsnum = NaN | NegInf | Fin rat | PosInf

text \<open>The exception that the conversions below raise.\<close>

datatype error = TypeError

text \<open>
  A stored event, with the fields the ingestion endpoint writes. The request body of
  \<open>POST /api/clickstream\<close> is the \<open>payload\<close>: the same fields without \<open>id\<close>
  (here \<open>event_id\<close>) and \<open>ip\<close>.
\<close>

record payload =
  sessionId :: "jsval option"
  userId :: "jsval option"
  eventType :: "jsval option"
  eventData :: "jsval option"
  timestamp :: "jsval option"
  url :: "jsval option"
  userAgent :: "jsval option"
  viewport :: "jsval option"
  action :: "jsval option"
  elementId :: "jsval option"
  page :: "jsval option"
  additionalData :: "jsval option"
  details :: "jsval option"

record event = payload +
  event_id :: "jsval option"
  ip :: "jsval option"

text \<open>
  Built-ins of the language whose result is fixed by the engine, not by this program:
  \<open>StringToNumber\<close> (the conversion applied to a string operand of \<open>==\<close> and
  \<open>>=\<close>), \<open>DateParse\<close> (\<open>Date.parse\<close>, \<open>None\<close> is \<open>NaN\<close>, the time value of an
  Invalid Date), \<open>NumberToString\<close>, \<open>LocalDay\<close>, the local calendar day (as a day
  number) that contains a time value in the time zone of the machine
  (\<open>toDateString()\<close> of two valid dates are equal exactly when their local days are),
  and \<open>SortLong\<close>, what \<open>Array.prototype.sort\<close> does with a comparison function on
  an array of 64 elements or more (the merging of runs; shorter arrays are sorted by the
  algorithm given below). Every theorem below holds for all values of these.
\<close>

record builtins =
  StringToNumber :: "string \<Rightarrow> jsnum"
  DateParse :: "string \<Rightarrow> int option"
  NumberToString :: "rat \<Rightarrow> string"
  LocalDay :: "int \<Rightarrow> int"
  SortLong :: "(event \<Rightarrow> event \<Rightarrow> error + int option) \<Rightarrow> event list \<Rightarrow> error + event list"

text \<open>\<open>ToBoolean\<close>: which values count as true in \<open>if (v)\<close> and \<open>v || w\<close>.\<close>

fun truthy :: "jsval option \<Rightarrow> bool" where
  "truthy None = False"
| "truthy (Some JNull) = False"
| "truthy (Some (JBool b)) = b"
| "truthy (Some (JNum r)) = (r \<noteq> 0)"
| "truthy (Some (JStr s)) = (s \<noteq> [])"
| "truthy (Some (JObj kvs)) = True"

text \<open>\<open>a || b\<close>\<close>

definition js_or :: "jsval option \<Rightarrow> jsval option \<Rightarrow> jsval option" where
  "js_or a b = (if truthy a then a else b)"

text \<open>
  \<open>ToPrimitive\<close> of an object that came from JSON. The language tries the methods
  \<open>valueOf\<close> and \<open>toString\<close> (in this order, or the other for a string context),
  skips one that is not callable or returns an object, and raises a TypeError when none
  gives a primitive. \<open>Object.prototype.valueOf\<close> returns the object itself, and
  \<open>Object.prototype.toString\<close> returns \<open>[object Object]\<close>; an own property
  \<open>toString\<close> hides the latter, and it is a JSON value, so not callable. Hence the
  conversion gives \<open>[object Object]\<close>, or raises when the object has an own property
  named \<open>toString\<close>.
\<close>

definition ToPrimitive :: "(string \<times> jsval) list \<Rightarrow> error + string" where
  "ToPrimitive kvs =
     (if map_of kvs ''toString'' = None then Inr ''[object Object]'' else Inl TypeError)"

text \<open>
  \<open>v == s\<close> for a string \<open>s\<close> (loose equality): \<open>undefined\<close> and \<open>null\<close> equal no
  string, a boolean and a number are compared with the number the string converts to, a
  string is compared as a string, and an object is first converted to a primitive.
\<close>

fun loose_eq :: "builtins \<Rightarrow> jsval option \<Rightarrow> string \<Rightarrow> error + bool" where
  "loose_eq B None s = Inr False"
| "loose_eq B (Some JNull) s = Inr False"
| "loose_eq B (Some (JBool b)) s = Inr (StringToNumber B s = Fin (if b then 1 else 0))"
| "loose_eq B (Some (JNum r)) s = Inr (StringToNumber B s = Fin r)"
| "loose_eq B (Some (JStr t)) s = Inr (t = s)"
| "loose_eq B (Some (JObj kvs)) s =
     (case ToPrimitive kvs of Inl e \<Rightarrow> Inl e | Inr t \<Rightarrow> Inr (t = s))"

text \<open>\<open>v === s\<close> for a string \<open>s\<close> (strict equality): only the same string is equal.\<close>

fun strict_eq :: "jsval option \<Rightarrow> string \<Rightarrow> bool" where
  "strict_eq (Some (JStr t)) s = (t = s)"
| "strict_eq v s = False"

text \<open>
  The time value of \<open>new Date(v)\<close> in milliseconds, \<open>None\<close> for an Invalid Date: a
  string is parsed, a number is truncated to an integer and must lie within
  \<open>8.64e15\<close> ms of the epoch, \<open>null\<close> and booleans convert to 0 and 1, \<open>undefined\<close>
  is invalid, and an object is converted to a primitive first.
\<close>

definition truncate :: "rat \<Rightarrow> int" where
  "truncate r = (if 0 \<le> r then \<lfloor>r\<rfloor> else \<lceil>r\<rceil>)"

fun newDate :: "builtins \<Rightarrow> jsval option \<Rightarrow> error + int option" where
  "newDate B None = Inr None"
| "newDate B (Some JNull) = Inr (Some 0)"
| "newDate B (Some (JBool b)) = Inr (Some (if b then 1 else 0))"
| "newDate B (Some (JNum r)) =
     Inr (if \<bar>r\<bar> \<le> 8640000000000000 then Some (truncate r) else None)"
| "newDate B (Some (JStr s)) = Inr (DateParse B s)"
| "newDate B (Some (JObj kvs)) =
     (case ToPrimitive kvs of Inl e \<Rightarrow> Inl e | Inr t \<Rightarrow> Inr (DateParse B t))"

text \<open>
  \<open>d1 >= d2\<close> and \<open>d1 <= d2\<close> on two Date objects compare their time values; with an
  Invalid Date on either side the comparison is false.
\<close>

fun date_ge :: "int option \<Rightarrow> int option \<Rightarrow> bool" where
  "date_ge (Some a) (Some b) = (a \<ge> b)"
| "date_ge x y = False"

fun date_le :: "int option \<Rightarrow> int option \<Rightarrow> bool" where
  "date_le (Some a) (Some b) = (a \<le> b)"
| "date_le x y = False"

text \<open>
  \<open>ToString\<close> of a value, as a template literal and a property key apply it
  (\<open>undefined\<close> gives the string \<open>undefined\<close>), and \<open>ToNumber\<close>, as \<open>>=\<close> against
  a number applies it.
\<close>

fun to_string :: "builtins \<Rightarrow> jsval option \<Rightarrow> error + string" where
  "to_string B None = Inr ''undefined''"
| "to_string B (Some JNull) = Inr ''null''"
| "to_string B (Some (JBool b)) = Inr (if b then ''true'' else ''false'')"
| "to_string B (Some (JNum r)) = Inr (NumberToString B r)"
| "to_string B (Some (JStr s)) = Inr s"
| "to_string B (Some (JObj kvs)) = ToPrimitive kvs"

fun to_number :: "builtins \<Rightarrow> jsval option \<Rightarrow> error + jsnum" where
  "to_number B None = Inr NaN"
| "to_number B (Some JNull) = Inr (Fin 0)"
| "to_number B (Some (JBool b)) = Inr (Fin (if b then 1 else 0))"
| "to_number B (Some (JNum r)) = Inr (Fin r)"
| "to_number B (Some (JStr s)) = Inr (StringToNumber B s)"
| "to_number B (Some (JObj kvs)) =
     (case ToPrimitive kvs of Inl e \<Rightarrow> Inl e | Inr t \<Rightarrow> Inr (StringToNumber B t))"

text \<open>\<open>n >= k\<close> for a finite number \<open>k\<close>\<close>

fun num_ge :: "jsnum \<Rightarrow> rat \<Rightarrow> bool" where
  "num_ge NaN k = False"
| "num_ge NegInf k = False"
| "num_ge (Fin r) k = (r \<ge> k)"
| "num_ge PosInf k = True"

text \<open>
  \<open>xs.filter(p)\<close> and \<open>xs.map(f)\<close> with a callback that may raise: the elements are
  visited in order and the first exception ends the call.
\<close>

fun filter_try :: "('a \<Rightarrow> error + bool) \<Rightarrow> 'a list \<Rightarrow> error + 'a list" where
  "filter_try p [] = Inr []"
| "filter_try p (x # xs) =
     (case p x of
        Inl e \<Rightarrow> Inl e
      | Inr keep \<Rightarrow>
          (case filter_try p xs of
             Inl e \<Rightarrow> Inl e
           | Inr ys \<Rightarrow> Inr (if keep then x # ys else ys)))"

fun map_try :: "('a \<Rightarrow> error + 'b) \<Rightarrow> 'a list \<Rightarrow> error + 'b list" where
  "map_try f [] = Inr []"
| "map_try f (x # xs) =
     (case f x of
        Inl e \<Rightarrow> Inl e
      | Inr y \<Rightarrow> (case map_try f xs of Inl e \<Rightarrow> Inl e | Inr ys \<Rightarrow> Inr (y # ys)))"

section \<open>The event log store (server-local.js)\<close>

text \<open>
  The file \<open>data/clickstream.json\<close>: \<open>None\<close> when it cannot be read or parsed. The
  server creates the file holding \<open>[]\<close> and only ever writes arrays of event objects to
  it, so a readable file holds a list of events. \<open>fs.writeFileSync\<close> succeeds, or fails
  when it opens the file (the file is left as it was), or fails after it has opened and
  so truncated the file (what is left is a proper prefix of the new text, which does not
  parse).
\<close>

datatype write_outcome = Written | FailsAtOpen | FailsMidWrite

record db =
  clickstream_file :: "event list option"
  clickstream_write :: write_outcome

definition readDB :: "db \<Rightarrow> event list" where
  "readDB d = (case clickstream_file d of Some es \<Rightarrow> es | None \<Rightarrow> [])"

definition writeDB :: "db \<Rightarrow> event list \<Rightarrow> db \<times> bool" where
  "writeDB d es =
     (case clickstream_write d of
        Written \<Rightarrow> (d\<lparr>clickstream_file := Some es\<rparr>, True)
      | FailsAtOpen \<Rightarrow> (d, False)
      | FailsMidWrite \<Rightarrow> (d\<lparr>clickstream_file := None\<rparr>, False))"

section \<open>The ingestion endpoint\<close>

text \<open>
  What a request carries besides its body, and the two clock readings of the handler
  (\<open>Date.now()\<close> and \<open>new Date().toISOString()\<close>).
\<close>

record request =
  body :: payload
  header_user_agent :: "jsval option"
  req_ip :: "jsval option"
  now_ms :: int
  now_iso :: string

record post_reply =
  status :: nat
  success :: bool
  message :: string
  reply_id :: "jsval option"

definition clickData :: "request \<Rightarrow> event" where
  "clickData req =
     (let b = body req in
      \<lparr> sessionId = sessionId b,
        userId = userId b,
        eventType = eventType b,
        eventData = eventData b,
        timestamp = js_or (timestamp b) (Some (JStr (now_iso req))),
        url = url b,
        userAgent = js_or (userAgent b) (header_user_agent req),
        viewport = viewport b,
        action = js_or (action b) (eventType b),
        elementId = elementId b,
        page = page b,
        additionalData = additionalData b,
        details = js_or (details b) (eventData b),
        event_id = Some (JNum (of_int (now_ms req))),
        ip = req_ip req \<rparr>)"

text \<open>
  The log line of the handler is a template literal with two parts. The first,
  \<open>clickData.eventType || clickData.action\<close>, is converted to a string. The second is
  \<open>clickData.sessionId?.substring(0, 8)\<close>: \<open>?.\<close> stops at \<open>undefined\<close> and
  \<open>null\<close> only, so a session id that is a number, a boolean or an object raises a
  TypeError (it has no \<open>substring\<close>). Both come after the log has been written.
\<close>

fun substring_raises :: "jsval option \<Rightarrow> bool" where
  "substring_raises None = False"
| "substring_raises (Some JNull) = False"
| "substring_raises (Some (JStr s)) = False"
| "substring_raises (Some v) = True"

definition log_line :: "builtins \<Rightarrow> event \<Rightarrow> error + unit" where
  "log_line B cd =
     (case to_string B (js_or (eventType cd) (action cd)) of
        Inl e \<Rightarrow> Inl e
      | Inr label \<Rightarrow> if substring_raises (sessionId cd) then Inl TypeError else Inr ())"

text \<open>
  \<open>app.post('/api/clickstream')\<close>: the handler ignores what \<open>writeDB\<close> returns; its
  \<open>catch\<close> branch is reached only by a TypeError of the log line.
\<close>

definition post_clickstream :: "builtins \<Rightarrow> request \<Rightarrow> db \<Rightarrow> db \<times> post_reply" where
  "post_clickstream B req d =
     (let cd = clickData req;
          clickstream = readDB d;
          (d', written) = writeDB d (clickstream @ [cd])
      in case log_line B cd of
           Inl e \<Rightarrow> (d', \<lparr> status = 500, success = False,
                            message = ''Failed to record clickstream data'', reply_id = None \<rparr>)
         | Inr u \<Rightarrow> (d', \<lparr> status = 200, success = True,
                            message = ''Clickstream data recorded'', reply_id = event_id cd \<rparr>))"

section \<open>The query and filter layer\<close>

text \<open>
  The query parameters of \<open>GET /api/analytics/clickstream\<close>, each a string when
  present. \<open>if (userId)\<close> is false for an absent parameter and for the empty string:
  in both cases the filter is not applied.
\<close>

record query =
  q_userId :: "string option"
  q_page :: "string option"
  q_startDate :: "string option"
  q_endDate :: "string option"

fun when_param ::
  "string option \<Rightarrow> (string \<Rightarrow> event \<Rightarrow> error + bool) \<Rightarrow> event list \<Rightarrow> error + event list" where
  "when_param None p xs = Inr xs"
| "when_param (Some s) p xs = (if s = [] then Inr xs else filter_try (p s) xs)"

text \<open>The two answers of the handler: \<open>res.json\<close> in the \<open>try\<close> and in the \<open>catch\<close>.\<close>

record analytics_reply =
  a_status :: nat
  a_success :: bool
  a_message :: "string option"
  data :: "event list option"
  count :: "nat option"

definition analytics_ok :: "event list \<Rightarrow> analytics_reply" where
  "analytics_ok filteredData =
     \<lparr> a_status = 200, a_success = True, a_message = None,
       data = Some filteredData, count = Some (length filteredData) \<rparr>"

definition analytics_failed :: analytics_reply where
  "analytics_failed =
     \<lparr> a_status = 500, a_success = False,
       a_message = Some ''Failed to fetch analytics data'', data = None, count = None \<rparr>"

text \<open>The four filters in the order of the handler; an exception in one skips the rest.\<close>

definition filtered :: "builtins \<Rightarrow> query \<Rightarrow> event list \<Rightarrow> error + event list" where
  "filtered B q clickstream =
     (case when_param (q_userId q) (\<lambda>userId' item. loose_eq B (userId item) userId') clickstream of
        Inl e \<Rightarrow> Inl e
      | Inr filteredData \<Rightarrow>
     (case when_param (q_page q) (\<lambda>page' item. Inr (strict_eq (page item) page')) filteredData of
        Inl e \<Rightarrow> Inl e
      | Inr filteredData \<Rightarrow>
     (case when_param (q_startDate q)
             (\<lambda>startDate item.
                case newDate B (timestamp item) of
                  Inl e \<Rightarrow> Inl e
                | Inr t \<Rightarrow>
                    (case newDate B (Some (JStr startDate)) of
                       Inl e \<Rightarrow> Inl e | Inr lo \<Rightarrow> Inr (date_ge t lo)))
             filteredData of
        Inl e \<Rightarrow> Inl e
      | Inr filteredData \<Rightarrow>
          when_param (q_endDate q)
             (\<lambda>endDate item.
                case newDate B (timestamp item) of
                  Inl e \<Rightarrow> Inl e
                | Inr t \<Rightarrow>
                    (case newDate B (Some (JStr endDate)) of
                       Inl e \<Rightarrow> Inl e | Inr hi \<Rightarrow> Inr (date_le t hi)))
             filteredData)))"

text \<open>\<open>app.get('/api/analytics/clickstream')\<close>\<close>

definition get_analytics_clickstream :: "builtins \<Rightarrow> query \<Rightarrow> db \<Rightarrow> analytics_reply" where
  "get_analytics_clickstream B q d =
     (let clickstream = readDB d in
      case filtered B q clickstream of
        Inl e \<Rightarrow> analytics_failed
      | Inr filteredData \<Rightarrow> analytics_ok filteredData)"

subsection \<open>Array.prototype.sort\<close>

text \<open>
  The sort of V8, the engine that runs the server, with a comparison function. A result
  of the function that is \<open>NaN\<close> counts as 0, and an exception of the function ends the
  sort. An array of fewer than two elements is returned as it is. For fewer than 64
  elements the sort finds the run at the start of the array (the longest prefix that is
  not descending, or that is strictly descending, which it then reverses), and inserts
  each later element into the sorted prefix at the place a binary search gives.
\<close>

type_synonym comparefn = "event \<Rightarrow> event \<Rightarrow> error + int option"

definition Compare :: "comparefn \<Rightarrow> event \<Rightarrow> event \<Rightarrow> error + int" where
  "Compare comparefn x y =
     (case comparefn x y of
        Inl e \<Rightarrow> Inl e
      | Inr None \<Rightarrow> Inr 0
      | Inr (Some v) \<Rightarrow> Inr v)"

text \<open>How many further elements continue the run that ends in \<open>previousElement\<close>.\<close>

fun run_rest :: "comparefn \<Rightarrow> bool \<Rightarrow> event \<Rightarrow> event list \<Rightarrow> error + nat" where
  "run_rest comparefn isDescending previousElement [] = Inr 0"
| "run_rest comparefn isDescending previousElement (currentElement # rest) =
     (case Compare comparefn currentElement previousElement of
        Inl e \<Rightarrow> Inl e
      | Inr order \<Rightarrow>
          if (if isDescending then order \<ge> 0 else order < 0) then Inr 0
          else (case run_rest comparefn isDescending currentElement rest of
                  Inl e \<Rightarrow> Inl e
                | Inr k \<Rightarrow> Inr (Suc k)))"

text \<open>The length of the first run, and the array with that run in ascending order.\<close>

fun CountAndMakeRun :: "comparefn \<Rightarrow> event list \<Rightarrow> error + nat \<times> event list" where
  "CountAndMakeRun comparefn (elementHigh # elementLow # rest) =
     (case Compare comparefn elementLow elementHigh of
        Inl e \<Rightarrow> Inl e
      | Inr order \<Rightarrow>
          (let isDescending = (order < 0) in
           case run_rest comparefn isDescending elementLow rest of
             Inl e \<Rightarrow> Inl e
           | Inr k \<Rightarrow>
               (let runLength = 2 + k;
                    workArray = elementHigh # elementLow # rest
                in Inr (runLength,
                        if isDescending
                        then rev (take runLength workArray) @ drop runLength workArray
                        else workArray))))"
| "CountAndMakeRun comparefn workArray = Inr (length workArray, workArray)"

text \<open>The binary search for the place of \<open>pivot\<close> in \<open>workArray[left..right)\<close>.\<close>

function find_slot :: "comparefn \<Rightarrow> event \<Rightarrow> event list \<Rightarrow> nat \<Rightarrow> nat \<Rightarrow> error + nat" where
  "find_slot comparefn pivot workArray left right =
     (if left < right
      then (case Compare comparefn pivot (workArray ! (left + (right - left) div 2)) of
              Inl e \<Rightarrow> Inl e
            | Inr order \<Rightarrow>
                if order < 0
                then find_slot comparefn pivot workArray left (left + (right - left) div 2)
                else find_slot comparefn pivot workArray (left + (right - left) div 2 + 1) right)
      else Inr left)"
  by pat_completeness auto
termination
  by (relation "measure (\<lambda>(comparefn, pivot, workArray, left, right). right - left)") auto

declare find_slot.simps [simp del]

text \<open>
  The insertion of the elements \<open>workArray[start..high)\<close>, one after the other: the
  elements from the slot up to \<open>start\<close> move one place to the right.
\<close>

function BinaryInsertionSort :: "comparefn \<Rightarrow> event list \<Rightarrow> nat \<Rightarrow> nat \<Rightarrow> error + event list" where
  "BinaryInsertionSort comparefn workArray start high =
     (if start < high
      then (case find_slot comparefn (workArray ! start) workArray 0 start of
              Inl e \<Rightarrow> Inl e
            | Inr left \<Rightarrow>
                BinaryInsertionSort comparefn
                  (take left workArray @ [workArray ! start] @ drop left (take start workArray)
                     @ drop (Suc start) workArray)
                  (Suc start) high)
      else Inr workArray)"
  by pat_completeness auto
termination
  by (relation "measure (\<lambda>(comparefn, workArray, start, high). high - start)") auto

declare BinaryInsertionSort.simps [simp del]

definition array_sort :: "builtins \<Rightarrow> comparefn \<Rightarrow> event list \<Rightarrow> error + event list" where
  "array_sort B comparefn xs =
     (if length xs < 2 then Inr xs
      else if length xs < 64
      then (case CountAndMakeRun comparefn xs of
              Inl e \<Rightarrow> Inl e
            | Inr (runLength, workArray) \<Rightarrow>
                if runLength < length xs
                then BinaryInsertionSort comparefn workArray runLength (length xs)
                else Inr workArray)
      else SortLong B comparefn xs)"

text \<open>
  The comparison function \<open>(a, b) => new Date(b.timestamp) - new Date(a.timestamp)\<close>:
  the difference is \<open>NaN\<close> when either date is invalid.
\<close>

definition by_timestamp_desc :: "builtins \<Rightarrow> comparefn" where
  "by_timestamp_desc B a b =
     (case newDate B (timestamp b) of
        Inl e \<Rightarrow> Inl e
      | Inr tb \<Rightarrow>
          (case newDate B (timestamp a) of
             Inl e \<Rightarrow> Inl e
           | Inr ta \<Rightarrow>
               Inr (case (tb, ta) of (Some x, Some y) \<Rightarrow> Some (x - y) | _ \<Rightarrow> None)))"

record user_reply =
  u_status :: nat
  u_success :: bool
  u_message :: "string option"
  u_userId :: "string option"
  totalActions :: "nat option"
  u_data :: "event list option"

text \<open>
  \<open>app.get('/api/clickstream/user/:userId')\<close>; the route parameter is a string. In
  \<open>item.userId === userId || item.userId == userId\<close> the loose comparison is made
  only when the strict one is false.
\<close>

definition get_clickstream_user :: "builtins \<Rightarrow> string \<Rightarrow> db \<Rightarrow> user_reply" where
  "get_clickstream_user B userId' d =
     (let clickstream = readDB d in
      case (case filter_try
                   (\<lambda>item. if strict_eq (userId item) userId' then Inr True
                           else loose_eq B (userId item) userId')
                   clickstream of
              Inl e \<Rightarrow> Inl e
            | Inr userData \<Rightarrow> array_sort B (by_timestamp_desc B) userData) of
        Inl e \<Rightarrow>
          \<lparr> u_status = 500, u_success = False, u_message = Some ''Failed to fetch user data'',
            u_userId = None, totalActions = None, u_data = None \<rparr>
      | Inr userData \<Rightarrow>
          \<lparr> u_status = 200, u_success = True, u_message = None, u_userId = Some userId',
            totalActions = Some (length userData), u_data = Some userData \<rparr>)"

section \<open>The event capture client (ClickstreamService)\<close>

text \<open>
  The fields of the service object, and what the browser provides: the page address, the
  user agent, the window size, the clock, and local storage under the key
  \<open>failed_clickstream_events\<close>. That entry is absent, holds a JSON array (the retry
  queue), or holds anything else (\<open>Garbage\<close>: text that does not parse, or a value
  that is not an array), on which \<open>JSON.parse\<close> or \<open>push\<close>/\<open>map\<close> raises.
  \<open>storage_writable\<close> says whether \<open>localStorage.setItem\<close> succeeds (it raises when
  the quota is exceeded or storage is disabled).
\<close>

record service =
  this_sessionId :: string
  this_userId :: "jsval option"
  isInitialized :: bool

datatype queue_store = Absent | Stored "payload list" | Garbage

record browser =
  location_href :: string
  navigator_userAgent :: string
  innerWidth :: rat
  innerHeight :: rat
  clock_iso :: string
  failed_events :: queue_store
  storage_writable :: bool

text \<open>
  How a \<open>fetch\<close> settles: it rejects (network error), or it resolves to a response
  with a status and a body, \<open>None\<close> when \<open>response.json()\<close> rejects. Every request is
  taken to settle.
\<close>

datatype fetch_outcome = NetworkError | Response nat "post_reply option"

definition response_ok :: "nat \<Rightarrow> bool" where
  "response_ok st = (200 \<le> st \<and> st \<le> 299)"

text \<open>An object literal; a property whose value is \<open>undefined\<close> does not reach JSON.\<close>

definition obj :: "(string \<times> jsval option) list \<Rightarrow> jsval" where
  "obj kvs = JObj (List.map_filter (\<lambda>(k, v). map_option (\<lambda>w. (k, w)) v) kvs)"

text \<open>\<open>o?.k\<close> and \<open>o.k\<close> on a JSON value, for the property names this program reads.\<close>

fun opt_get :: "jsval option \<Rightarrow> string \<Rightarrow> jsval option" where
  "opt_get (Some (JObj kvs)) k = map_of kvs k"
| "opt_get v k = None"

definition storeFailedEvent :: "browser \<Rightarrow> payload \<Rightarrow> browser" where
  "storeFailedEvent br ev =
     (case failed_events br of
        Garbage \<Rightarrow> br
      | Absent \<Rightarrow> if storage_writable br then br\<lparr>failed_events := Stored [ev]\<rparr> else br
      | Stored failedEvents \<Rightarrow>
          if storage_writable br then br\<lparr>failed_events := Stored (failedEvents @ [ev])\<rparr> else br)"

definition clickstreamEvent :: "service \<Rightarrow> browser \<Rightarrow> string \<Rightarrow> jsval \<Rightarrow> payload" where
  "clickstreamEvent svc br eventType' eventData' =
     \<lparr> sessionId = Some (JStr (this_sessionId svc)),
       userId = this_userId svc,
       eventType = Some (JStr eventType'),
       eventData = Some eventData',
       timestamp = Some (JStr (clock_iso br)),
       url = Some (JStr (location_href br)),
       userAgent = Some (JStr (navigator_userAgent br)),
       viewport = Some (JObj [(''width'', JNum (innerWidth br)), (''height'', JNum (innerHeight br))]),
       action = Some (JStr eventType'),
       elementId = None,
       page = None,
       additionalData = None,
       details = Some eventData' \<rparr>"

text \<open>
  The outcome of one call: what the promise resolves to (\<open>None\<close> is \<open>undefined\<close>),
  the browser afterwards, and the requests that were sent. The function has no path on
  which the promise rejects: every \<open>throw\<close> is inside a \<open>try\<close>.
\<close>

record track_result =
  returned :: "post_reply option"
  browser_after :: browser
  requests :: "payload list"

definition trackEvent ::
  "service \<Rightarrow> browser \<Rightarrow> (payload \<Rightarrow> fetch_outcome) \<Rightarrow> string \<Rightarrow> jsval option \<Rightarrow> track_result" where
  "trackEvent svc br net eventType' eventData' =
     (if \<not> isInitialized svc \<and> eventType' \<noteq> ''session_start''
      then \<lparr> returned = None, browser_after = br, requests = [] \<rparr>
      else
        let ev = clickstreamEvent svc br eventType'
                   (case eventData' of None \<Rightarrow> JObj [] | Some v \<Rightarrow> v)
        in case net ev of
             Response st (Some result) \<Rightarrow>
               if response_ok st
               then \<lparr> returned = Some result, browser_after = br, requests = [ev] \<rparr>
               else \<lparr> returned = None, browser_after = storeFailedEvent br ev, requests = [ev] \<rparr>
           | Response st None \<Rightarrow>
               \<lparr> returned = None, browser_after = storeFailedEvent br ev, requests = [ev] \<rparr>
           | NetworkError \<Rightarrow>
               \<lparr> returned = None, browser_after = storeFailedEvent br ev, requests = [ev] \<rparr>)"

text \<open>
  \<open>initialize(user)\<close>: binds the user and sends \<open>session_start\<close>. \<open>startedAt\<close>
  is the clock reading the function takes for the event data, before \<open>trackEvent\<close>
  takes its own.
\<close>

definition initialize ::
  "service \<Rightarrow> browser \<Rightarrow> (payload \<Rightarrow> fetch_outcome) \<Rightarrow> string \<Rightarrow> jsval option \<Rightarrow>
   service \<times> track_result" where
  "initialize svc br net startedAt user =
     (let svc' = svc\<lparr> this_userId :=
                        js_or (js_or (opt_get user ''username'') (opt_get user ''id''))
                              (Some (JStr ''anonymous'')),
                      isInitialized := True \<rparr>
      in (svc', trackEvent svc' br net ''session_start''
            (Some (obj [(''user'', this_userId svc'),
                        (''userUsername'', opt_get user ''username''),
                        (''userId'', opt_get user ''id''),
                        (''sessionId'', Some (JStr (this_sessionId svc'))),
                        (''userAgent'', Some (JStr (navigator_userAgent br))),
                        (''viewport'', Some (JObj [(''width'', JNum (innerWidth br)),
                                                  (''height'', JNum (innerHeight br))])),
                        (''timestamp'', Some (JStr startedAt))]))))"


subsection \<open>The percentage of a quiz\<close>

text \<open>
  JavaScript numbers are IEEE doubles: the result of a division or a multiplication is
  the exact result rounded to 53 significant bits, to the nearest, a tie to the even
  significand. \<open>ilog2 x\<close> is the exponent \<open>e\<close> with \<open>2^e \<le> x < 2^(e+1)\<close> of a
  positive \<open>x\<close>, found from the bit lengths of numerator and denominator; \<open>fl\<close>
  rounds. Overflow and subnormal numbers do not arise from the quotient of two integers
  below \<open>2^53\<close> and its product with 100, and are not modelled.
\<close>

definition ilog2 :: "rat \<Rightarrow> int" where
  "ilog2 x =
     (let (p, q) = quotient_of x;
          d = int (floorlog 2 (nat p)) - int (floorlog 2 (nat q))
      in if 2 powi d \<le> x then d else d - 1)"

definition round_half_even :: "rat \<Rightarrow> int" where
  "round_half_even y =
     (let f = \<lfloor>y\<rfloor>; r = y - of_int f
      in if r < 1 / 2 then f else if r > 1 / 2 then f + 1 else if even f then f else f + 1)"

definition fl :: "rat \<Rightarrow> rat" where
  "fl x =
     (if x = 0 then 0
      else let a = \<bar>x\<bar>; e = ilog2 a - 52; m = round_half_even (a / 2 powi e)
           in sgn x * of_int m * 2 powi e)"

text \<open>
  \<open>Math.round\<close> rounds to the nearest integer, a half upwards. The percentage of a quiz
  is \<open>Math.round((score / totalQuestions) * 100)\<close>, where the score is the number of
  correct answers and \<open>totalQuestions\<close> the length of the list of questions, both
  integers; with no questions the quotient is \<open>NaN\<close> or an infinity, which JSON writes
  as \<open>null\<close>. \<open>completedAt\<close> is the clock reading of \<open>trackQuizComplete\<close> itself.
\<close>

definition math_round :: "rat \<Rightarrow> int" where
  "math_round r = \<lfloor>r + 1 / 2\<rfloor>"

definition percentage :: "int \<Rightarrow> int \<Rightarrow> jsnum" where
  "percentage score totalQuestions =
     (if totalQuestions = 0
      then (if score = 0 then NaN else if score > 0 then PosInf else NegInf)
      else Fin (of_int (math_round (fl (fl (of_int score / of_int totalQuestions) * 100)))))"

fun json_of_num :: "jsnum \<Rightarrow> jsval" where
  "json_of_num (Fin r) = JNum r"
| "json_of_num n = JNull"

definition trackQuizComplete ::
  "service \<Rightarrow> browser \<Rightarrow> (payload \<Rightarrow> fetch_outcome) \<Rightarrow> string \<Rightarrow>
   jsval option \<Rightarrow> int \<Rightarrow> int \<Rightarrow> jsval option \<Rightarrow> track_result" where
  "trackQuizComplete svc br net completedAt courseId score totalQuestions timeSpent =
     trackEvent svc br net ''quiz_complete''
       (Some (obj [(''courseId'', courseId),
                   (''score'', Some (JNum (of_int score))),
                   (''totalQuestions'', Some (JNum (of_int totalQuestions))),
                   (''percentage'', Some (json_of_num (percentage score totalQuestions))),
                   (''timeSpent'', timeSpent),
                   (''completedAt'', Some (JStr completedAt))]))"

section \<open>The aggregation engine\<close>

text \<open>
  A JavaScript \<open>Set\<close> keeps the first occurrence of each value, in insertion order.
  Primitive values are the same when they are equal; an object is the same as itself
  only, and every object that \<open>JSON.parse\<close> produced is a different one.
\<close>

fun is_object :: "jsval option \<Rightarrow> bool" where
  "is_object (Some (JObj kvs)) = True"
| "is_object v = False"

definition set_add :: "jsval option list \<Rightarrow> jsval option \<Rightarrow> jsval option list" where
  "set_add s v = (if \<not> is_object v \<and> v \<in> set s then s else s @ [v])"

definition new_Set :: "jsval option list \<Rightarrow> jsval option list" where
  "new_Set vs = foldl set_add [] vs"

text \<open>
  A counter object \<open>m[k] = (m[k] || 0) + 1\<close>, as a map from property keys to counts
  (keys that are members of \<open>Object.prototype\<close> are outside the model).
\<close>

definition bump :: "(string \<rightharpoonup> nat) \<Rightarrow> string \<Rightarrow> (string \<rightharpoonup> nat)" where
  "bump m k = m(k \<mapsto> (case m k of None \<Rightarrow> 0 | Some c \<Rightarrow> c) + 1)"

text \<open>\<open>event.eventType || event.action || 'unknown'\<close>: always a value.\<close>

definition event_type_of :: "event \<Rightarrow> jsval" where
  "event_type_of e =
     (case js_or (js_or (eventType e) (action e)) (Some (JStr ''unknown'')) of
        Some v \<Rightarrow> v | None \<Rightarrow> JStr ''unknown'')"

record quiz =
  quiz_courseId :: "jsval option"
  quiz_courseTitle :: "jsval option"
  quiz_score :: "jsval option"
  quiz_totalQuestions :: "jsval option"
  quiz_percentage :: "jsval option"
  quiz_timestamp :: "jsval option"

text \<open>\<open>xs.forEach(f)\<close> with a body that updates accumulators and may raise.\<close>

fun forEach_try :: "('s \<Rightarrow> 'a \<Rightarrow> error + 's) \<Rightarrow> 's \<Rightarrow> 'a list \<Rightarrow> error + 's" where
  "forEach_try f acc [] = Inr acc"
| "forEach_try f acc (x # xs) =
     (case f acc x of Inl e \<Rightarrow> Inl e | Inr acc' \<Rightarrow> forEach_try f acc' xs)"

text \<open>
  The arrays of events live in a store: an array is known by its address, a call gets the
  address of the array it works on, and a method that changes an array in place changes
  the store. \<open>slice\<close> makes a new array, \<open>reverse\<close> turns the array it is called on
  around.
\<close>

type_synonym heap = "event list list"

definition slice_last :: "heap \<Rightarrow> nat \<Rightarrow> nat \<Rightarrow> heap \<times> nat" where
  "slice_last h a n = (h @ [drop (length (h ! a) - n) (h ! a)], length h)"

definition reverse_in_place :: "heap \<Rightarrow> nat \<Rightarrow> heap" where
  "reverse_in_place h a = h[a := rev (h ! a)]"

subsection \<open>processAnalytics (AnalyticsDashboard.jsx)\<close>

record analytics =
  totalEvents :: nat
  uniqueSessions :: nat
  eventTypes :: "string \<rightharpoonup> nat"
  recentEvents :: "event list"
  topCourses :: "string \<rightharpoonup> nat"
  quizCompletions :: "quiz list"

text \<open>
  The three accumulators of the \<open>forEach\<close> loop, and its body. The event type is
  converted to a property key, and the course id and title to the text of the key
  \<open>`${courseId} - ${courseTitle || 'Unknown'}`\<close>.
\<close>

record analytics_acc =
  acc_eventTypes :: "string \<rightharpoonup> nat"
  acc_topCourses :: "string \<rightharpoonup> nat"
  acc_quizCompletions :: "quiz list"

definition count_course :: "builtins \<Rightarrow> analytics_acc \<Rightarrow> event \<Rightarrow> error + analytics_acc" where
  "count_course B acc e =
     (if truthy (opt_get (eventData e) ''courseId'')
      then (case to_string B (opt_get (eventData e) ''courseId'') of
              Inl err \<Rightarrow> Inl err
            | Inr idText \<Rightarrow>
                (case to_string B (js_or (opt_get (eventData e) ''courseTitle'')
                                        (Some (JStr ''Unknown''))) of
                   Inl err \<Rightarrow> Inl err
                 | Inr titleText \<Rightarrow>
                     Inr (acc\<lparr>acc_topCourses :=
                                bump (acc_topCourses acc) (idText @ '' - '' @ titleText)\<rparr>)))
      else Inr acc)"

definition analytics_step :: "builtins \<Rightarrow> analytics_acc \<Rightarrow> event \<Rightarrow> error + analytics_acc" where
  "analytics_step B acc e =
     (let eventType' = event_type_of e in
      case to_string B (Some eventType') of
        Inl err \<Rightarrow> Inl err
      | Inr key \<Rightarrow>
          (case count_course B (acc\<lparr>acc_eventTypes := bump (acc_eventTypes acc) key\<rparr>) e of
             Inl err \<Rightarrow> Inl err
           | Inr acc \<Rightarrow>
               Inr (if eventType' = JStr ''quiz_complete''
                    then acc\<lparr>acc_quizCompletions := acc_quizCompletions acc @
                           [\<lparr> quiz_courseId = opt_get (eventData e) ''courseId'',
                              quiz_courseTitle = opt_get (eventData e) ''courseTitle'',
                              quiz_score = opt_get (eventData e) ''score'',
                              quiz_totalQuestions = opt_get (eventData e) ''totalQuestions'',
                              quiz_percentage = opt_get (eventData e) ''percentage'',
                              quiz_timestamp = timestamp e \<rparr>]\<rparr>
                    else acc)))"

text \<open>
  The call \<open>processAnalytics(clickstream)\<close>, where \<open>clickstream\<close> is the array at
  address \<open>a\<close>: what it returns or raises, and the store afterwards.
\<close>

definition processAnalytics :: "builtins \<Rightarrow> heap \<Rightarrow> nat \<Rightarrow> (error + analytics) \<times> heap" where
  "processAnalytics B h a =
     (let clickstream = h ! a in
      if length clickstream = 0
      then (Inr \<lparr> totalEvents = 0, uniqueSessions = 0, eventTypes = Map.empty,
                   recentEvents = [], topCourses = Map.empty, quizCompletions = [] \<rparr>, h)
      else
        let uniqueSessions' = new_Set (map sessionId clickstream) in
        case forEach_try (analytics_step B)
               \<lparr> acc_eventTypes = Map.empty, acc_topCourses = Map.empty,
                 acc_quizCompletions = [] \<rparr> clickstream of
          Inl err \<Rightarrow> (Inl err, h)
        | Inr acc \<Rightarrow>
            (let (h, recent) = slice_last h a 10;
                 h = reverse_in_place h recent
             in (Inr \<lparr> totalEvents = length clickstream,
                        uniqueSessions = length uniqueSessions',
                        eventTypes = acc_eventTypes acc,
                        recentEvents = h ! recent,
                        topCourses = acc_topCourses acc,
                        quizCompletions = acc_quizCompletions acc \<rparr>, h)))"

subsection \<open>processProgressData (LearningProgress component)\<close>

text \<open>An achievement; its \<open>icon\<close>, a glyph for display, is left out.\<close>

record achievement =
  title :: string
  description :: string
  earned :: bool

record view =
  view_courseId :: "jsval option"
  view_timestamp :: "jsval option"

record progress =
  totalSessions :: nat
  coursesViewed :: "jsval option list"
  quizzesTaken :: "quiz list"
  videoWatched :: "view list"
  textContentViewed :: "view list"
  achievements :: "achievement list"
  learningStreak :: nat
  totalTimeSpent :: nat

record progress_acc =
  acc_coursesViewed :: "jsval option list"
  acc_quizzesTaken :: "quiz list"
  acc_videoWatched :: "view list"
  acc_textContentViewed :: "view list"

text \<open>The body of the \<open>forEach\<close> loop; nothing in it raises.\<close>

definition progress_step :: "progress_acc \<Rightarrow> event \<Rightarrow> progress_acc" where
  "progress_step acc e =
     (let eventType' = event_type_of e;
          acc = (if eventType' = JStr ''course_view'' \<and> truthy (opt_get (eventData e) ''courseId'')
                 then acc\<lparr>acc_coursesViewed :=
                            set_add (acc_coursesViewed acc) (opt_get (eventData e) ''courseId'')\<rparr>
                 else acc);
          acc = (if eventType' = JStr ''quiz_complete''
                 then acc\<lparr>acc_quizzesTaken := acc_quizzesTaken acc @
                        [\<lparr> quiz_courseId = opt_get (eventData e) ''courseId'',
                           quiz_courseTitle = opt_get (eventData e) ''courseTitle'',
                           quiz_score = js_or (opt_get (eventData e) ''score'') (Some (JNum 0)),
                           quiz_totalQuestions =
                             js_or (opt_get (eventData e) ''totalQuestions'') (Some (JNum 0)),
                           quiz_percentage =
                             js_or (opt_get (eventData e) ''percentage'') (Some (JNum 0)),
                           quiz_timestamp = timestamp e \<rparr>]\<rparr>
                 else acc);
          acc = (if eventType' = JStr ''video_play''
                 then acc\<lparr>acc_videoWatched := acc_videoWatched acc @
                        [\<lparr> view_courseId = opt_get (eventData e) ''courseId'',
                           view_timestamp = timestamp e \<rparr>]\<rparr>
                 else acc)
      in if eventType' = JStr ''text_content_view''
         then acc\<lparr>acc_textContentViewed := acc_textContentViewed acc @
                [\<lparr> view_courseId = opt_get (eventData e) ''courseId'',
                   view_timestamp = timestamp e \<rparr>]\<rparr>
         else acc)"

text \<open>
  \<open>new Date(event.timestamp).toDateString()\<close>, as the local day of the date;
  \<open>None\<close> stands for the string \<open>Invalid Date\<close>.
\<close>

definition toDateString :: "builtins \<Rightarrow> jsval option \<Rightarrow> error + int option" where
  "toDateString B ts =
     (case newDate B ts of Inl e \<Rightarrow> Inl e | Inr t \<Rightarrow> Inr (map_option (LocalDay B) t))"

text \<open>
  \<open>quizzesTaken.some(quiz => quiz.percentage >= 80)\<close>: the quizzes are tested in
  order up to the first that passes.
\<close>

fun some_high :: "builtins \<Rightarrow> quiz list \<Rightarrow> error + bool" where
  "some_high B [] = Inr False"
| "some_high B (quiz # rest) =
     (case to_number B (quiz_percentage quiz) of
        Inl e \<Rightarrow> Inl e
      | Inr n \<Rightarrow> if num_ge n 80 then Inr True else some_high B rest)"

definition achievements_of ::
  "builtins \<Rightarrow> jsval option list \<Rightarrow> quiz list \<Rightarrow> error + achievement list" where
  "achievements_of B coursesViewed' quizzesTaken' =
     (case some_high B quizzesTaken' of
        Inl e \<Rightarrow> Inl e
      | Inr high \<Rightarrow>
          Inr ((if length coursesViewed' \<ge> 1
                then [\<lparr> title = ''First Steps'', description = ''Viewed your first course'',
                         earned = True \<rparr>]
                else []) @
               (if length quizzesTaken' \<ge> 1
                then [\<lparr> title = ''Quiz Master'', description = ''Completed your first quiz'',
                         earned = True \<rparr>]
                else []) @
               (if high
                then [\<lparr> title = ''High Achiever'',
                         description = ''Scored 80% or higher on a quiz'', earned = True \<rparr>]
                else []) @
               (if length coursesViewed' \<ge> 3
                then [\<lparr> title = ''Explorer'', description = ''Explored 3 different courses'',
                         earned = True \<rparr>]
                else [])))"

text \<open>
  The call \<open>processProgressData(clickstream)\<close> on the array at address \<open>a\<close>. The
  function only reads the array; the arrays it builds hold no events.
\<close>

definition processProgressData :: "builtins \<Rightarrow> heap \<Rightarrow> nat \<Rightarrow> (error + progress) \<times> heap" where
  "processProgressData B h a =
     (let clickstream = h ! a in
      if length clickstream = 0
      then (Inr \<lparr> totalSessions = 0, coursesViewed = [], quizzesTaken = [], videoWatched = [],
                   textContentViewed = [], achievements = [], learningStreak = 0,
                   totalTimeSpent = 0 \<rparr>, h)
      else
        let sessions = new_Set (map sessionId clickstream);
            acc = foldl progress_step
                    \<lparr> acc_coursesViewed = [], acc_quizzesTaken = [], acc_videoWatched = [],
                      acc_textContentViewed = [] \<rparr> clickstream
        in case achievements_of B (acc_coursesViewed acc) (acc_quizzesTaken acc) of
             Inl e \<Rightarrow> (Inl e, h)
           | Inr achievements' \<Rightarrow>
               (case map_try (\<lambda>event. toDateString B (timestamp event)) clickstream of
                  Inl e \<Rightarrow> (Inl e, h)
                | Inr dates \<Rightarrow>
                    (let activityDates = remdups dates
                     in (Inr \<lparr> totalSessions = length sessions,
                                coursesViewed = acc_coursesViewed acc,
                                quizzesTaken = acc_quizzesTaken acc,
                                videoWatched = acc_videoWatched acc,
                                textContentViewed = acc_textContentViewed acc,
                                achievements = achievements',
                                learningStreak = length activityDates,
                                totalTimeSpent = length sessions * 15 \<rparr>, h))))"

subsection \<open>The learning streak of loadLearningAnalytics (App-old.jsx)\<close>

text \<open>
  The \<open>while\<close> loop: \<open>currentDate\<close> starts at today and \<open>setDate(getDate() - 1)\<close>
  moves it one calendar day back; the loop counts while the map of active days has the
  day. It ends because the map is finite.
\<close>

function streak_loop :: "int option list \<Rightarrow> int \<Rightarrow> nat \<Rightarrow> nat" where
  "streak_loop dailyEngagement currentDate learningStreak' =
     (if Some currentDate \<in> set dailyEngagement
      then streak_loop dailyEngagement (currentDate - 1) (learningStreak' + 1)
      else learningStreak')"
  by pat_completeness auto
termination
proof (relation "measure (\<lambda>(ks, d, n). card {k. Some k \<in> set ks \<and> k \<le> d})")
  show "wf (measure (\<lambda>(ks, d, n). card {k. Some k \<in> set ks \<and> k \<le> d}))"
    by simp
next
  fix ks :: "int option list" and d :: int and n :: nat
  assume h: "Some d \<in> set ks"
  have fin: "finite {k. Some k \<in> set ks \<and> k \<le> d}"
  proof (rule finite_subset)
    show "{k. Some k \<in> set ks \<and> k \<le> d} \<subseteq> the ` set ks"
      by force
  qed simp
  have "{k. Some k \<in> set ks \<and> k \<le> d - 1} \<subset> {k. Some k \<in> set ks \<and> k \<le> d}"
    using h by auto
  then have "card {k. Some k \<in> set ks \<and> k \<le> d - 1} < card {k. Some k \<in> set ks \<and> k \<le> d}"
    using fin by (rule psubset_card_mono[rotated])
  then show "((ks, d - 1, n + 1), (ks, d, n)) \<in> measure (\<lambda>(ks, d, n). card {k. Some k \<in> set ks \<and> k \<le> d})"
    by simp
qed

declare streak_loop.simps [simp del]

text \<open>
  \<open>today\<close> is the time value of \<open>new Date()\<close>. The \<open>forEach\<close> that fills the map
  converts the timestamp of every interaction, as the statements before it in the
  function do; the result is the streak the function stores, or the exception its
  \<open>try\<close> catches.
\<close>

definition loadLearningAnalytics_learningStreak ::
  "builtins \<Rightarrow> int \<Rightarrow> event list \<Rightarrow> error + nat" where
  "loadLearningAnalytics_learningStreak B today userInteractions =
     (case map_try (\<lambda>action. toDateString B (timestamp action)) userInteractions of
        Inl e \<Rightarrow> Inl e
      | Inr dailyEngagement \<Rightarrow> Inr (streak_loop dailyEngagement (LocalDay B today) 0))"

section \<open>Concrete data for the examples\<close>

text \<open>
  The built-ins on the few strings and numbers the examples use (the time values are
  those of \<open>Date.parse\<close> on the four ISO strings; every other string of the examples is
  not a date and not a number), with UTC as the local time zone. No example sorts 64
  events or more.
\<close>

definition sample_builtins :: builtins where
  "sample_builtins =
     \<lparr> StringToNumber = (\<lambda>s. if s = ''42'' then Fin 42 else NaN),
       DateParse = map_of
         [(''2024-01-01T09:00:00.000Z'', 1704099600000),
          (''2024-01-02T09:00:00.000Z'', 1704186000000),
          (''2024-01-03T09:00:00.000Z'', 1704272400000),
          (''2024-01-04T09:00:00.000Z'', 1704358800000)],
       NumberToString = (\<lambda>r. if r = 42 then ''42'' else ''0''),
       LocalDay = (\<lambda>t. t div 86400000),
       SortLong = (\<lambda>comparefn xs. Inr xs) \<rparr>"

definition blank_payload :: payload where
  "blank_payload =
     \<lparr> sessionId = None, userId = None, eventType = None, eventData = None,
       timestamp = None, url = None, userAgent = None, viewport = None, action = None,
       elementId = None, page = None, additionalData = None, details = None \<rparr>"

definition blank_event :: event where
  "blank_event = payload.extend blank_payload \<lparr> event_id = None, ip = None \<rparr>"

definition sample_request :: request where
  "sample_request =
     \<lparr> body = blank_payload\<lparr> sessionId := Some (JStr ''session_1_abc''),
                               userId := Some (JStr ''alice''),
                               eventType := Some (JStr ''page_view'') \<rparr>,
       header_user_agent = Some (JStr ''Mozilla/5.0''),
       req_ip = Some (JStr ''127.0.0.1''),
       now_ms = 1704358800000,
       now_iso = ''2024-01-04T09:00:00.000Z'' \<rparr>"

definition readonly_db :: db where
  "readonly_db = \<lparr> clickstream_file = Some [], clickstream_write = FailsAtOpen \<rparr>"

definition sample_service :: service where
  "sample_service =
     \<lparr> this_sessionId = ''session_1_abc'', this_userId = Some (JStr ''alice''),
       isInitialized = True \<rparr>"

definition fresh_service :: service where
  "fresh_service =
     \<lparr> this_sessionId = ''session_1_abc'', this_userId = Some JNull,
       isInitialized = False \<rparr>"

definition sample_browser :: browser where
  "sample_browser =
     \<lparr> location_href = ''http://localhost:5173/'', navigator_userAgent = ''Mozilla/5.0'',
       innerWidth = 1280, innerHeight = 720, clock_iso = ''2024-01-04T09:00:00.000Z'',
       failed_events = Absent, storage_writable = True \<rparr>"

definition offline :: "payload \<Rightarrow> fetch_outcome" where
  "offline ev = NetworkError"

definition full_browser :: browser where
  "full_browser = sample_browser\<lparr>storage_writable := False\<rparr>"

text \<open>
  A log with an event whose page is in its event data, an event whose timestamp is not
  a date, and an event whose user id is a number.
\<close>

definition ev_a :: event where
  "ev_a = blank_event\<lparr> userId := Some (JStr ''alice''),
                        eventType := Some (JStr ''page_view''),
                        eventData := Some (JObj [(''page'', JStr ''home'')]),
                        timestamp := Some (JStr ''2024-01-01T09:00:00.000Z'') \<rparr>"

definition ev_b :: event where
  "ev_b = blank_event\<lparr> userId := Some (JStr ''alice''),
                        timestamp := Some (JStr ''not-a-date'') \<rparr>"

definition ev_c :: event where
  "ev_c = blank_event\<lparr> userId := Some (JStr ''alice''),
                        timestamp := Some (JStr ''2024-01-02T09:00:00.000Z'') \<rparr>"

definition ev_n :: event where
  "ev_n = blank_event\<lparr> userId := Some (JNum 42),
                        page := Some (JStr ''home''),
                        timestamp := Some (JStr ''2024-01-03T09:00:00.000Z'') \<rparr>"

definition sample_db :: db where
  "sample_db = \<lparr> clickstream_file = Some [ev_a, ev_b, ev_c, ev_n], clickstream_write = Written \<rparr>"

definition no_query :: query where
  "no_query = \<lparr> q_userId = None, q_page = None, q_startDate = None, q_endDate = None \<rparr>"

text \<open>
  An event whose timestamp is the object \<open>{"toString": 1}\<close>, a completed quiz whose
  percentage is that object, and logs that hold them.
\<close>

definition ev_p :: event where
  "ev_p = blank_event\<lparr> userId := Some (JStr ''alice''),
                        timestamp := Some (JObj [(''toString'', JNum 1)]) \<rparr>"

definition ev_q :: event where
  "ev_q = blank_event\<lparr> userId := Some (JStr ''alice''),
                        eventType := Some (JStr ''quiz_complete''),
                        eventData := Some (JObj [(''percentage'', JObj [(''toString'', JNum 1)])]),
                        timestamp := Some (JStr ''2024-01-01T09:00:00.000Z'') \<rparr>"

definition poisoned_db :: db where
  "poisoned_db = \<lparr> clickstream_file = Some [ev_b, ev_p], clickstream_write = Written \<rparr>"

definition since_query :: query where
  "since_query = no_query\<lparr>q_userId := Some ''alice'', q_startDate := Some ''2024-01-01T09:00:00.000Z''\<rparr>"

text \<open>
  The request that carries a completed quiz with 8 of 10, and a log with events on
  4, 3 and 1 January 2024, read at 16:00 of 4 January.
\<close>

definition sample_quiz_request :: request where
  "sample_quiz_request =
     sample_request\<lparr> body := clickstreamEvent sample_service sample_browser ''quiz_complete''
         (obj [(''courseId'', Some (JNum 3)), (''score'', Some (JNum 8)),
               (''totalQuestions'', Some (JNum 10)),
               (''percentage'', Some (json_of_num (percentage 8 10))),
               (''timeSpent'', Some (JNum 95)),
               (''completedAt'', Some (JStr ''2024-01-04T08:59:59.999Z''))]) \<rparr>"

definition ev_t :: event where
  "ev_t = blank_event\<lparr> userId := Some (JStr ''alice''),
                        timestamp := Some (JStr ''2024-01-04T09:00:00.000Z'') \<rparr>"

definition streak_log :: "event list" where
  "streak_log = [ev_a, ev_n, ev_t]"

definition sample_today :: int where
  "sample_today = 1704384000000"

section \<open>Notions used to state the properties\<close>

text \<open>The entries of the retry queue; there are none when the storage entry is no queue.\<close>

definition queued :: "browser \<Rightarrow> payload list" where
  "queued br = (case failed_events br of Stored q \<Rightarrow> q | _ \<Rightarrow> [])"

text \<open>
  A delivery succeeded when the request resolved to a response with a 2xx status whose
  body could be read; then the body is what the server replied.
\<close>

fun delivered :: "fetch_outcome \<Rightarrow> post_reply option" where
  "delivered (Response st (Some result)) = (if response_ok st then Some result else None)"
| "delivered outcome = None"

text \<open>
  A value that cannot be converted to a primitive: an object with an own property
  \<open>toString\<close>. The conversions raise on exactly these values.
\<close>

fun unconvertible :: "jsval option \<Rightarrow> bool" where
  "unconvertible (Some (JObj kvs)) = (map_of kvs ''toString'' \<noteq> None)"
| "unconvertible v = False"

text \<open>
  Loose equality and the time value of a timestamp as total notions: a value that
  cannot be converted equals no string and has no time value.
\<close>

definition loosely_equal :: "builtins \<Rightarrow> jsval option \<Rightarrow> string \<Rightarrow> bool" where
  "loosely_equal B v s = (loose_eq B v s = Inr True)"

definition time_value :: "builtins \<Rightarrow> jsval option \<Rightarrow> int option" where
  "time_value B v = (case newDate B v of Inr t \<Rightarrow> t | Inl e \<Rightarrow> None)"

text \<open>
  A query parameter is supplied when it is present and not the empty string. The
  predicate of a parameter holds for an event when the parameter is not supplied or the
  event passes its test. \<open>matches\<close> is the conjunction over the four parameters:
  the user id by loose equality, the page against the top-level \<open>page\<close> field, and the
  two dates as inclusive bounds on the time value of the timestamp (an event with an
  invalid timestamp, or a bound that is not a date, fails the test).
\<close>

fun supplied :: "string option \<Rightarrow> bool" where
  "supplied None = False"
| "supplied (Some s) = (s \<noteq> [])"

fun param_holds :: "string option \<Rightarrow> (string \<Rightarrow> bool) \<Rightarrow> bool" where
  "param_holds None P = True"
| "param_holds (Some s) P = (s = [] \<or> P s)"

definition matches_user_page :: "builtins \<Rightarrow> query \<Rightarrow> event \<Rightarrow> bool" where
  "matches_user_page B q e =
     (param_holds (q_userId q) (\<lambda>u. loosely_equal B (userId e) u)
      \<and> param_holds (q_page q) (\<lambda>p. page e = Some (JStr p)))"

definition matches :: "builtins \<Rightarrow> query \<Rightarrow> event \<Rightarrow> bool" where
  "matches B q e =
     (matches_user_page B q e
      \<and> param_holds (q_startDate q)
           (\<lambda>s. case (time_value B (timestamp e), DateParse B s) of
                   (Some t, Some lo) \<Rightarrow> lo \<le> t | _ \<Rightarrow> False)
      \<and> param_holds (q_endDate q)
           (\<lambda>s. case (time_value B (timestamp e), DateParse B s) of
                   (Some t, Some hi) \<Rightarrow> t \<le> hi | _ \<Rightarrow> False))"

text \<open>
  When the filtered query raises: the user filter converts the user id of every event
  of the log, and a date filter converts the timestamp of every event that passed the
  user and page filters.
\<close>

definition analytics_raises :: "builtins \<Rightarrow> query \<Rightarrow> event list \<Rightarrow> bool" where
  "analytics_raises B q clickstream =
     ((supplied (q_userId q) \<and> list_ex (\<lambda>e. unconvertible (userId e)) clickstream)
      \<or> ((supplied (q_startDate q) \<or> supplied (q_endDate q))
          \<and> list_ex (\<lambda>e. unconvertible (timestamp e))
               (filter (matches_user_page B q) clickstream)))"

text \<open>The events of an answer; a failure carries none.\<close>

definition returned_events :: "analytics_reply \<Rightarrow> event list" where
  "returned_events r = (case data r of Some xs \<Rightarrow> xs | None \<Rightarrow> [])"

text \<open>
  When \<open>processProgressData\<close> raises: the percentage of a completed quiz cannot be
  converted and no quiz before it scored 80 or more, or the timestamp of some event
  cannot be converted.
\<close>

definition percent_of :: "event \<Rightarrow> jsval option" where
  "percent_of e = js_or (opt_get (eventData e) ''percentage'') (Some (JNum 0))"

definition scores_high :: "builtins \<Rightarrow> event \<Rightarrow> bool" where
  "scores_high B e =
     (case to_number B (percent_of e) of Inr n \<Rightarrow> num_ge n 80 | Inl err \<Rightarrow> False)"

definition progress_raises :: "builtins \<Rightarrow> event list \<Rightarrow> bool" where
  "progress_raises B clickstream =
     (list_ex (\<lambda>e. unconvertible (percent_of e))
        (takeWhile (\<lambda>e. \<not> scores_high B e)
           (filter (\<lambda>e. event_type_of e = JStr ''quiz_complete'') clickstream))
      \<or> list_ex (\<lambda>e. unconvertible (timestamp e)) clickstream)"

text \<open>The record that the loop of \<open>processProgressData\<close> keeps of a completed quiz.\<close>

definition quiz_of :: "event \<Rightarrow> quiz" where
  "quiz_of e =
     \<lparr> quiz_courseId = opt_get (eventData e) ''courseId'',
       quiz_courseTitle = opt_get (eventData e) ''courseTitle'',
       quiz_score = js_or (opt_get (eventData e) ''score'') (Some (JNum 0)),
       quiz_totalQuestions = js_or (opt_get (eventData e) ''totalQuestions'') (Some (JNum 0)),
       quiz_percentage = percent_of e,
       quiz_timestamp = timestamp e \<rparr>"

section \<open>Persistence failure at the ingestion endpoint\<close>

text \<open>
  C1 (as the code behaves): when the write of the event log fails, \<open>writeDB\<close> swallows
  the I/O error and returns \<open>false\<close>, and the handler does not look at that result.
  The answer is the one of a write that succeeded: status 200 and \<open>success: true\<close>
  whenever the log line can be written (status 500 only when the log line itself
  raises), although the event is not in the log afterwards: the log is as it was when
  the file could not be opened, and is lost when the write broke off.
\<close>

theorem post_clickstream_write_failure:
  assumes "clickstream_write d \<noteq> Written"
  shows "snd (post_clickstream B req d) =
           (case log_line B (clickData req) of
              Inr u \<Rightarrow> \<lparr> status = 200, success = True, message = ''Clickstream data recorded'',
                         reply_id = Some (JNum (of_int (now_ms req))) \<rparr>
            | Inl e \<Rightarrow> \<lparr> status = 500, success = False,
                         message = ''Failed to record clickstream data'', reply_id = None \<rparr>)
         \<and> readDB (fst (post_clickstream B req d))
             = (if clickstream_write d = FailsAtOpen then readDB d else [])"
proof -
  have i: "event_id (clickData req) = Some (JNum (of_int (now_ms req)))"
    by (simp add: clickData_def Let_def)
  show ?thesis
    using assms
    by (cases "clickstream_write d"; cases "log_line B (clickData req)")
       (simp_all add: post_clickstream_def writeDB_def Let_def readDB_def i)
qed

theorem post_clickstream_write_failure_witness:
  "clickstream_write readonly_db \<noteq> Written
   \<and> log_line sample_builtins (clickData sample_request) = Inr ()
   \<and> status (snd (post_clickstream sample_builtins sample_request readonly_db)) = 200
   \<and> success (snd (post_clickstream sample_builtins sample_request readonly_db))
   \<and> readDB (fst (post_clickstream sample_builtins sample_request readonly_db)) = []"
proof -
  have h: "clickstream_write readonly_db \<noteq> Written"
    "log_line sample_builtins (clickData sample_request) = Inr ()"
    by (simp_all add: readonly_db_def log_line_def clickData_def sample_request_def
          blank_payload_def js_or_def Let_def)
  from post_clickstream_write_failure[OF h(1), of sample_builtins sample_request] h
  show ?thesis by (simp add: readonly_db_def readDB_def)
qed

section \<open>Tracking before initialization\<close>

text \<open>
  C10: a call of \<open>trackEvent\<close> with an event type other than \<open>session_start\<close>, made
  before \<open>initialize\<close>, returns at once with \<open>undefined\<close>: no request is sent and
  local storage, and with it the retry queue, is left as it was.
\<close>

theorem trackEvent_before_initialize:
  assumes "\<not> isInitialized svc" and "eventType' \<noteq> ''session_start''"
  shows "trackEvent svc br net eventType' eventData' =
           \<lparr> returned = None, browser_after = br, requests = [] \<rparr>"
  using assms by (simp add: trackEvent_def)

theorem trackEvent_before_initialize_witness:
  "\<not> isInitialized fresh_service \<and> ''page_view'' \<noteq> ''session_start''
   \<and> trackEvent fresh_service sample_browser offline ''page_view'' None =
       \<lparr> returned = None, browser_after = sample_browser, requests = [] \<rparr>"
  using trackEvent_before_initialize[of fresh_service "''page_view''" sample_browser
      offline None]
  by (simp add: fresh_service_def)

section \<open>Tracking after initialization\<close>

lemma initialize_initialized: "isInitialized (fst (initialize svc br net startedAt user))"
  by (simp add: initialize_def Let_def)

lemma trackEvent_initialized:
  assumes "isInitialized svc"
  shows "trackEvent svc br net ty d =
     (let ev = clickstreamEvent svc br ty (case d of None \<Rightarrow> JObj [] | Some v \<Rightarrow> v) in
      case delivered (net ev) of
        Some result \<Rightarrow> \<lparr> returned = Some result, browser_after = br, requests = [ev] \<rparr>
      | None \<Rightarrow> \<lparr> returned = None, browser_after = storeFailedEvent br ev, requests = [ev] \<rparr>)"
proof -
  let ?ev = "clickstreamEvent svc br ty (case d of None \<Rightarrow> JObj [] | Some v \<Rightarrow> v)"
  show ?thesis
  proof (cases "net ?ev")
    case NetworkError
    then show ?thesis using assms by (simp add: trackEvent_def Let_def)
  next
    case (Response st b)
    then show ?thesis using assms by (cases b) (simp_all add: trackEvent_def Let_def)
  qed
qed

lemma storeFailedEvent_queue:
  "storeFailedEvent br ev =
     (if failed_events br \<noteq> Garbage \<and> storage_writable br
      then br\<lparr>failed_events := Stored (queued br @ [ev])\<rparr> else br)"
  by (cases "failed_events br") (simp_all add: storeFailedEvent_def queued_def)

text \<open>
  C5 (amended): after initialization, \<open>trackEvent\<close> builds the event record with the
  session id, the user id, the event type under \<open>eventType\<close> and \<open>action\<close>, the event
  data under \<open>eventData\<close> and \<open>details\<close>, the timestamp, the address, the user agent
  and the viewport, and sends it. When the delivery succeeds the call returns the reply
  of the server (the object that carries the assigned id). When it fails (network error,
  status outside 2xx, unreadable body) the call returns \<open>undefined\<close>, raises nothing,
  and appends the event to the retry queue provided local storage holds a queue (or no
  entry) and can be written; otherwise the event is dropped and storage is unchanged.
\<close>

theorem trackEvent_after_initialize:
  assumes "isInitialized svc"
  shows "(let ev = clickstreamEvent svc br ty (case d of None \<Rightarrow> JObj [] | Some v \<Rightarrow> v);
              r = trackEvent svc br net ty d
          in requests r = [ev]
             \<and> sessionId ev = Some (JStr (this_sessionId svc))
             \<and> userId ev = this_userId svc
             \<and> eventType ev = Some (JStr ty) \<and> action ev = Some (JStr ty)
             \<and> eventData ev = Some (case d of None \<Rightarrow> JObj [] | Some v \<Rightarrow> v)
             \<and> details ev = eventData ev
             \<and> timestamp ev = Some (JStr (clock_iso br))
             \<and> url ev = Some (JStr (location_href br))
             \<and> userAgent ev = Some (JStr (navigator_userAgent br))
             \<and> viewport ev = Some (JObj [(''width'', JNum (innerWidth br)),
                                         (''height'', JNum (innerHeight br))])
             \<and> (case delivered (net ev) of
                   Some result \<Rightarrow> returned r = Some result \<and> browser_after r = br
                 | None \<Rightarrow>
                     returned r = None
                     \<and> (if failed_events br \<noteq> Garbage \<and> storage_writable br
                        then queued (browser_after r) = queued br @ [ev]
                        else browser_after r = br)))"
proof -
  let ?ev = "clickstreamEvent svc br ty (case d of None \<Rightarrow> JObj [] | Some v \<Rightarrow> v)"
  have fields: "sessionId ?ev = Some (JStr (this_sessionId svc))" "userId ?ev = this_userId svc"
    "eventType ?ev = Some (JStr ty)" "action ?ev = Some (JStr ty)"
    "eventData ?ev = Some (case d of None \<Rightarrow> JObj [] | Some v \<Rightarrow> v)"
    "details ?ev = eventData ?ev"
    "timestamp ?ev = Some (JStr (clock_iso br))"
    "url ?ev = Some (JStr (location_href br))"
    "userAgent ?ev = Some (JStr (navigator_userAgent br))"
    "viewport ?ev = Some (JObj [(''width'', JNum (innerWidth br)), (''height'', JNum (innerHeight br))])"
    by (simp_all add: clickstreamEvent_def)
  have run: "(case delivered (net ?ev) of
                   Some result \<Rightarrow> returned (trackEvent svc br net ty d) = Some result \<and> browser_after (trackEvent svc br net ty d) = br
                 | None \<Rightarrow>
                     returned (trackEvent svc br net ty d) = None
                     \<and> (if failed_events br \<noteq> Garbage \<and> storage_writable br
                        then queued (browser_after (trackEvent svc br net ty d)) = queued br @ [?ev]
                        else browser_after (trackEvent svc br net ty d) = br))"
    by (cases "delivered (net ?ev)")
       (simp_all add: trackEvent_initialized[OF assms] Let_def storeFailedEvent_queue queued_def)
  have req: "requests (trackEvent svc br net ty d) = [?ev]"
    by (cases "delivered (net ?ev)") (simp_all add: trackEvent_initialized[OF assms] Let_def)
  show ?thesis unfolding Let_def using fields run req by blast
qed

theorem trackEvent_after_initialize_witness:
  "isInitialized sample_service
   \<and> delivered (offline (clickstreamEvent sample_service sample_browser ''page_view'' (JObj []))) = None
   \<and> returned (trackEvent sample_service sample_browser offline ''page_view'' None) = None
   \<and> queued (browser_after (trackEvent sample_service sample_browser offline ''page_view'' None))
       = [clickstreamEvent sample_service sample_browser ''page_view'' (JObj [])]"
proof -
  have h: "isInitialized sample_service" by (simp add: sample_service_def)
  have o: "delivered (offline (clickstreamEvent sample_service sample_browser ''page_view'' (JObj []))) = None"
    by (simp add: offline_def)
  have s: "failed_events sample_browser \<noteq> Garbage \<and> storage_writable sample_browser"
    "queued sample_browser = []"
    by (simp_all add: sample_browser_def queued_def)
  from trackEvent_after_initialize[OF h, of sample_browser "''page_view''" None offline]
  show ?thesis using h o s by (simp add: Let_def)
qed

text \<open>
  C5 as stated fails: with the network down and local storage not writable, the event is
  sent once, the delivery fails, and the retry queue is still empty afterwards.
\<close>

theorem trackEvent_storage_failure_counterexample:
  "isInitialized sample_service
   \<and> offline (clickstreamEvent sample_service full_browser ''page_view'' (JObj [])) = NetworkError
   \<and> requests (trackEvent sample_service full_browser offline ''page_view'' None)
       = [clickstreamEvent sample_service full_browser ''page_view'' (JObj [])]
   \<and> queued (browser_after (trackEvent sample_service full_browser offline ''page_view'' None)) = []"
  by (simp add: trackEvent_def sample_service_def offline_def storeFailedEvent_def
        full_browser_def sample_browser_def queued_def Let_def)


section \<open>The retry pass\<close>



section \<open>Conversions that raise\<close>

text \<open>
  The only exception of the model is the TypeError of a conversion, and a conversion
  raises on the unconvertible values only. A filter or a map over a list raises when
  its function raises on some element.
\<close>

lemma error_is: "(e::error) = TypeError"
  by (cases e) simp

lemma ToPrimitive_raises: "(ToPrimitive kvs = Inl TypeError) = (map_of kvs ''toString'' \<noteq> None)"
  by (simp add: ToPrimitive_def)

lemma loose_eq_raises: "(loose_eq B v s = Inl TypeError) = unconvertible v"
  by (cases "(B, v, s)" rule: loose_eq.cases)
     (auto simp: ToPrimitive_def split: sum.splits)

lemma newDate_raises: "(newDate B v = Inl TypeError) = unconvertible v"
  by (cases "(B, v)" rule: newDate.cases)
     (auto simp: ToPrimitive_def split: sum.splits)

lemma to_number_raises: "(to_number B v = Inl TypeError) = unconvertible v"
  by (cases "(B, v)" rule: to_number.cases)
     (auto simp: ToPrimitive_def split: sum.splits)

lemma to_string_raises: "(to_string B v = Inl TypeError) = unconvertible v"
  by (cases "(B, v)" rule: to_string.cases)
     (auto simp: ToPrimitive_def split: sum.splits)

lemma filter_try_char:
  "filter_try p xs =
     (if list_ex (\<lambda>x. p x = Inl TypeError) xs then Inl TypeError
      else Inr (filter (\<lambda>x. p x = Inr True) xs))"
proof (induction xs)
  case Nil
  then show ?case by simp
next
  case (Cons x xs)
  show ?case
  proof (cases "p x")
    case (Inl e)
    then show ?thesis by (simp add: error_is)
  next
    case (Inr keep)
    then show ?thesis using Cons.IH by simp
  qed
qed

lemma map_try_char:
  "map_try f xs =
     (if list_ex (\<lambda>x. f x = Inl TypeError) xs then Inl TypeError
      else Inr (map (\<lambda>x. case f x of Inr y \<Rightarrow> y) xs))"
proof (induction xs)
  case Nil
  then show ?case by simp
next
  case (Cons x xs)
  show ?case
  proof (cases "f x")
    case (Inl e)
    then show ?thesis by (simp add: error_is)
  next
    case (Inr y)
    then show ?thesis using Cons.IH by simp
  qed
qed

lemma when_param_char:
  assumes "\<And>s x. (p s x = Inl TypeError) = R x" and "\<And>s x. (p s x = Inr True) = K s x"
  shows "when_param prm p xs =
           (if supplied prm \<and> list_ex R xs then Inl TypeError
            else Inr (filter (\<lambda>x. param_holds prm (\<lambda>s. K s x)) xs))"
proof (cases prm)
  case None
  then show ?thesis by simp
next
  case (Some s)
  then show ?thesis by (simp add: filter_try_char assms)
qed

lemma user_filter_char:
  "when_param (q_userId q) (\<lambda>userId' item. loose_eq B (userId item) userId') xs =
     (if supplied (q_userId q) \<and> list_ex (\<lambda>e. unconvertible (userId e)) xs then Inl TypeError
      else Inr (filter (\<lambda>e. param_holds (q_userId q) (\<lambda>u. loosely_equal B (userId e) u)) xs))"
  by (rule when_param_char) (simp_all add: loose_eq_raises loosely_equal_def)

lemma page_filter_char:
  "when_param (q_page q) (\<lambda>page' item. Inr (strict_eq (page item) page')) xs =
     Inr (filter (\<lambda>e. param_holds (q_page q) (\<lambda>p. page e = Some (JStr p))) xs)"
proof -
  have s: "strict_eq v s = (v = Some (JStr s))" for v s
    by (cases "(v, s)" rule: strict_eq.cases) auto
  have "when_param (q_page q) (\<lambda>page' item. Inr (strict_eq (page item) page')) xs =
     (if supplied (q_page q) \<and> list_ex (\<lambda>e. False) xs then Inl TypeError
      else Inr (filter (\<lambda>e. param_holds (q_page q) (\<lambda>p. page e = Some (JStr p))) xs))"
    by (rule when_param_char) (simp_all add: s)
  then show ?thesis by (simp add: list_ex_iff)
qed

lemma time_value_cases:
  "newDate B v = Inr t \<Longrightarrow> time_value B v = t"
  by (simp add: time_value_def)

lemma start_filter_char:
  "when_param (q_startDate q)
     (\<lambda>startDate item.
        case newDate B (timestamp item) of
          Inl e \<Rightarrow> Inl e
        | Inr t \<Rightarrow>
            (case newDate B (Some (JStr startDate)) of
               Inl e \<Rightarrow> Inl e | Inr lo \<Rightarrow> Inr (date_ge t lo))) xs =
     (if supplied (q_startDate q) \<and> list_ex (\<lambda>e. unconvertible (timestamp e)) xs then Inl TypeError
      else Inr (filter (\<lambda>e. param_holds (q_startDate q)
           (\<lambda>s. case (time_value B (timestamp e), DateParse B s) of
                   (Some t, Some lo) \<Rightarrow> lo \<le> t | _ \<Rightarrow> False)) xs))"
proof (rule when_param_char)
  fix s x
  show "((case newDate B (timestamp x) of Inl e \<Rightarrow> Inl e
          | Inr t \<Rightarrow> (case newDate B (Some (JStr s)) of Inl e \<Rightarrow> Inl e | Inr lo \<Rightarrow> Inr (date_ge t lo)))
         = Inl TypeError) = unconvertible (timestamp x)"
    using newDate_raises[of B "timestamp x"]
    by (cases "newDate B (timestamp x)") (simp_all add: error_is)
  show "((case newDate B (timestamp x) of Inl e \<Rightarrow> Inl e
          | Inr t \<Rightarrow> (case newDate B (Some (JStr s)) of Inl e \<Rightarrow> Inl e | Inr lo \<Rightarrow> Inr (date_ge t lo)))
         = Inr True)
        = (case (time_value B (timestamp x), DateParse B s) of
             (Some t, Some lo) \<Rightarrow> lo \<le> t | _ \<Rightarrow> False)"
  proof (cases "newDate B (timestamp x)")
    case (Inl e)
    then show ?thesis by (simp add: time_value_def)
  next
    case (Inr t)
    then show ?thesis
      by (cases t; cases "DateParse B s") (simp_all add: time_value_def)
  qed
qed

lemma end_filter_char:
  "when_param (q_endDate q)
     (\<lambda>endDate item.
        case newDate B (timestamp item) of
          Inl e \<Rightarrow> Inl e
        | Inr t \<Rightarrow>
            (case newDate B (Some (JStr endDate)) of
               Inl e \<Rightarrow> Inl e | Inr hi \<Rightarrow> Inr (date_le t hi))) xs =
     (if supplied (q_endDate q) \<and> list_ex (\<lambda>e. unconvertible (timestamp e)) xs then Inl TypeError
      else Inr (filter (\<lambda>e. param_holds (q_endDate q)
           (\<lambda>s. case (time_value B (timestamp e), DateParse B s) of
                   (Some t, Some hi) \<Rightarrow> t \<le> hi | _ \<Rightarrow> False)) xs))"
proof (rule when_param_char)
  fix s x
  show "((case newDate B (timestamp x) of Inl e \<Rightarrow> Inl e
          | Inr t \<Rightarrow> (case newDate B (Some (JStr s)) of Inl e \<Rightarrow> Inl e | Inr hi \<Rightarrow> Inr (date_le t hi)))
         = Inl TypeError) = unconvertible (timestamp x)"
    using newDate_raises[of B "timestamp x"]
    by (cases "newDate B (timestamp x)") (simp_all add: error_is)
  show "((case newDate B (timestamp x) of Inl e \<Rightarrow> Inl e
          | Inr t \<Rightarrow> (case newDate B (Some (JStr s)) of Inl e \<Rightarrow> Inl e | Inr hi \<Rightarrow> Inr (date_le t hi)))
         = Inr True)
        = (case (time_value B (timestamp x), DateParse B s) of
             (Some t, Some hi) \<Rightarrow> t \<le> hi | _ \<Rightarrow> False)"
  proof (cases "newDate B (timestamp x)")
    case (Inl e)
    then show ?thesis by (simp add: time_value_def)
  next
    case (Inr t)
    then show ?thesis
      by (cases t; cases "DateParse B s") (simp_all add: time_value_def)
  qed
qed

lemma filtered_char:
  "filtered B q xs =
     (if analytics_raises B q xs then Inl TypeError else Inr (filter (matches B q) xs))"
proof -
  define U where "U = (\<lambda>e::event. param_holds (q_userId q) (\<lambda>u. loosely_equal B (userId e) u))"
  define P where "P = (\<lambda>e::event. param_holds (q_page q) (\<lambda>p. page e = Some (JStr p)))"
  define S where "S = (\<lambda>e::event. param_holds (q_startDate q)
           (\<lambda>s. case (time_value B (timestamp e), DateParse B s) of
                   (Some t, Some lo) \<Rightarrow> lo \<le> t | _ \<Rightarrow> False))"
  define E where "E = (\<lambda>e::event. param_holds (q_endDate q)
           (\<lambda>s. case (time_value B (timestamp e), DateParse B s) of
                   (Some t, Some hi) \<Rightarrow> t \<le> hi | _ \<Rightarrow> False))"
  define bad where "bad = (\<lambda>e::event. unconvertible (timestamp e))"
  let ?up = "filter (matches_user_page B q) xs"
  note u = user_filter_char[of q B, folded U_def]
  note p = page_filter_char[of q, folded P_def]
  note s = start_filter_char[of q B, folded S_def bad_def]
  note e = end_filter_char[of q B, folded E_def bad_def]
  have up: "filter P (filter U xs) = ?up"
    by (auto simp: matches_user_page_def U_def P_def intro!: filter_cong)
  have m: "filter E (filter S ?up) = filter (matches B q) xs"
    by (auto simp: matches_def S_def E_def intro!: filter_cong)
  have keep: "\<not> list_ex bad (filter S ?up)" if "\<not> list_ex bad ?up"
    using that by (auto simp: list_ex_iff)
  have same: "filter S ?up = ?up" if "\<not> supplied (q_startDate q)"
    using that by (cases "q_startDate q") (simp_all add: S_def)
  have r: "analytics_raises B q xs =
     ((supplied (q_userId q) \<and> list_ex (\<lambda>e. unconvertible (userId e)) xs)
      \<or> ((supplied (q_startDate q) \<or> supplied (q_endDate q)) \<and> list_ex bad ?up))"
    by (simp add: analytics_raises_def bad_def)
  have f: "filtered B q xs =
     (case (if supplied (q_userId q) \<and> list_ex (\<lambda>e. unconvertible (userId e)) xs
            then Inl TypeError else Inr (filter U xs)) of
        Inl e \<Rightarrow> Inl e
      | Inr ys \<Rightarrow>
          (case (if supplied (q_startDate q) \<and> list_ex bad (filter P ys)
                 then Inl TypeError else Inr (filter S (filter P ys))) of
             Inl e \<Rightarrow> Inl e
           | Inr zs \<Rightarrow>
               (if supplied (q_endDate q) \<and> list_ex bad zs then Inl TypeError
                else Inr (filter E zs))))"
    unfolding filtered_def u p s e by simp
  show ?thesis
  proof (cases "supplied (q_userId q) \<and> list_ex (\<lambda>e. unconvertible (userId e)) xs")
    case True
    then show ?thesis unfolding f r by simp
  next
    case False
    note nu = False
    show ?thesis
    proof (cases "list_ex bad ?up")
      case False
      then show ?thesis unfolding f r using nu keep[OF False]
        by (simp add: up m del: filter_filter)
    next
      case True
      note t = True
      show ?thesis
      proof (cases "supplied (q_startDate q)")
        case True
        then show ?thesis unfolding f r using nu t
          by (simp add: up del: filter_filter)
      next
        case False
        then show ?thesis unfolding f r using nu t same[OF False] m
          by (auto simp: up simp del: filter_filter)
      qed
    qed
  qed
qed

lemma analytics_reply_char:
  "get_analytics_clickstream B q d =
     (if analytics_raises B q (readDB d) then analytics_failed
      else analytics_ok (filter (matches B q) (readDB d)))"
  by (simp add: get_analytics_clickstream_def Let_def filtered_char)

section \<open>The filtered analytics query\<close>

lemma sample_log: "readDB sample_db = [ev_a, ev_b, ev_c, ev_n]"
  by (simp add: readDB_def sample_db_def)

lemma ev_fields:
  "userId ev_a = Some (JStr ''alice'')" "userId ev_b = Some (JStr ''alice'')"
  "userId ev_c = Some (JStr ''alice'')" "userId ev_n = Some (JNum 42)"
  "userId ev_p = Some (JStr ''alice'')"
  "timestamp ev_a = Some (JStr ''2024-01-01T09:00:00.000Z'')"
  "timestamp ev_b = Some (JStr ''not-a-date'')"
  "timestamp ev_c = Some (JStr ''2024-01-02T09:00:00.000Z'')"
  "timestamp ev_n = Some (JStr ''2024-01-03T09:00:00.000Z'')"
  "timestamp ev_p = Some (JObj [(''toString'', JNum 1)])"
  "page ev_a = None" "page ev_b = None" "page ev_c = None" "page ev_n = Some (JStr ''home'')"
  "page ev_p = None"
  by (simp_all add: ev_a_def ev_b_def ev_c_def ev_n_def ev_p_def blank_event_def
        blank_payload_def payload.extend_def)

lemma ev_distinct: "ev_a \<noteq> ev_n" "ev_b \<noteq> ev_n" "ev_c \<noteq> ev_n" "ev_a \<noteq> ev_b" "ev_b \<noteq> ev_c" "ev_a \<noteq> ev_c"
  by (simp_all add: ev_a_def ev_b_def ev_c_def ev_n_def blank_event_def blank_payload_def payload.extend_def)

lemma sample_dates:
  "DateParse sample_builtins ''2024-01-01T09:00:00.000Z'' = Some 1704099600000"
  "DateParse sample_builtins ''2024-01-02T09:00:00.000Z'' = Some 1704186000000"
  "DateParse sample_builtins ''2024-01-03T09:00:00.000Z'' = Some 1704272400000"
  "DateParse sample_builtins ''2024-01-04T09:00:00.000Z'' = Some 1704358800000"
  "DateParse sample_builtins ''not-a-date'' = None"
  by (simp_all add: sample_builtins_def)

lemma sample_numbers:
  "StringToNumber sample_builtins ''alice'' = NaN" "StringToNumber sample_builtins ''42'' = Fin 42"
  by (simp_all add: sample_builtins_def)

lemma user_42_query:
  "\<not> analytics_raises sample_builtins (no_query\<lparr>q_userId := Some ''42''\<rparr>) (readDB sample_db)"
  "filter (matches sample_builtins (no_query\<lparr>q_userId := Some ''42''\<rparr>)) (readDB sample_db) = [ev_n]"
  by (simp_all add: sample_log analytics_raises_def matches_def matches_user_page_def no_query_def
        loosely_equal_def ev_fields sample_numbers)

text \<open>
  C3 (as the code behaves): for every stored log and every combination of the four
  query parameters, the answer is the failure answer (status 500) when a conversion
  raises, and otherwise the answer with status 200 whose \<open>data\<close> are exactly the events
  of the log that satisfy \<open>matches\<close>, in log order, and whose \<open>count\<close> is their number.
  The returned events are events of the log. A user id stored as the string of the
  parameter and one stored as the number that the parameter denotes both equal the
  parameter loosely. The page is compared with the top-level \<open>page\<close> field only.
\<close>

theorem get_analytics_clickstream_conjunction:
  "get_analytics_clickstream B q d =
     (if analytics_raises B q (readDB d) then analytics_failed
      else analytics_ok (filter (matches B q) (readDB d)))
   \<and> set (returned_events (get_analytics_clickstream B q d)) \<subseteq> set (readDB d)
   \<and> count (get_analytics_clickstream B q d) =
       (if analytics_raises B q (readDB d) then None
        else Some (length (returned_events (get_analytics_clickstream B q d))))
   \<and> loose_eq B (Some (JStr u)) u = Inr True
   \<and> (StringToNumber B u = Fin n \<longrightarrow> loose_eq B (Some (JNum n)) u = Inr True)"
  by (simp add: analytics_reply_char analytics_ok_def analytics_failed_def returned_events_def)

theorem get_analytics_clickstream_conjunction_witness:
  "StringToNumber sample_builtins ''42'' = Fin 42
   \<and> loose_eq sample_builtins (Some (JNum 42)) ''42'' = Inr True
   \<and> get_analytics_clickstream sample_builtins (no_query\<lparr>q_userId := Some ''42''\<rparr>) sample_db
       = analytics_ok [ev_n]"
proof -
  have h: "StringToNumber sample_builtins ''42'' = Fin 42"
    by (simp add: sample_builtins_def)
  from get_analytics_clickstream_conjunction
         [of sample_builtins "no_query\<lparr>q_userId := Some ''42''\<rparr>" sample_db "''42''" 42]
  show ?thesis using h by (simp add: user_42_query)
qed

lemma page_query_run:
  "get_analytics_clickstream sample_builtins (no_query\<lparr>q_page := Some ''home''\<rparr>) sample_db
     = analytics_ok [ev_n]"
  by (simp add: analytics_reply_char sample_log analytics_raises_def matches_def
        matches_user_page_def no_query_def ev_fields)

text \<open>
  C3 (as stated, refuted): the first event of \<open>sample_db\<close> has \<open>eventData.page\<close> equal
  to \<open>home\<close>, as \<open>trackPageView\<close> records it, and no top-level \<open>page\<close>; the query
  \<open>page=home\<close> succeeds and does not return it.
\<close>

theorem page_filter_counterexample:
  "ev_a \<in> set (readDB sample_db)
   \<and> opt_get (eventData ev_a) ''page'' = Some (JStr ''home'')
   \<and> a_status (get_analytics_clickstream sample_builtins
                  (no_query\<lparr>q_page := Some ''home''\<rparr>) sample_db) = 200
   \<and> ev_a \<notin> set (returned_events (get_analytics_clickstream sample_builtins
                          (no_query\<lparr>q_page := Some ''home''\<rparr>) sample_db))"
  unfolding page_query_run sample_log using ev_distinct
  by (simp add: ev_a_def blank_event_def blank_payload_def payload.extend_def
        analytics_ok_def returned_events_def)

section \<open>Events with an unparseable timestamp\<close>

lemma matches_bounded_invalid:
  assumes "time_value B (timestamp e) = None" and "supplied (q_startDate q) \<or> supplied (q_endDate q)"
  shows "\<not> matches B q e"
proof -
  have "\<not> param_holds (q_startDate q)
           (\<lambda>s. case (time_value B (timestamp e), DateParse B s) of
                   (Some t, Some lo) \<Rightarrow> lo \<le> t | _ \<Rightarrow> False)" if "supplied (q_startDate q)"
    using that assms(1) by (cases "q_startDate q") simp_all
  moreover have "\<not> param_holds (q_endDate q)
           (\<lambda>s. case (time_value B (timestamp e), DateParse B s) of
                   (Some t, Some hi) \<Rightarrow> t \<le> hi | _ \<Rightarrow> False)" if "supplied (q_endDate q)"
    using that assms(1) by (cases "q_endDate q") simp_all
  ultimately show ?thesis using assms(2) by (auto simp: matches_def)
qed

lemma since_query_facts:
  "ev_b \<in> set (readDB sample_db)" "newDate sample_builtins (timestamp ev_b) = Inr None"
  "supplied (q_startDate since_query)"
  "matches_user_page sample_builtins since_query ev_b"
  "\<not> (supplied (q_userId since_query) \<and> list_ex (\<lambda>x. unconvertible (userId x)) (readDB sample_db))"
  "\<not> analytics_raises sample_builtins since_query (readDB sample_db)"
  by (simp_all add: sample_log since_query_def no_query_def ev_fields sample_dates
        matches_user_page_def loosely_equal_def analytics_raises_def sample_numbers)

text \<open>
  C7 (as the code behaves): let a stored event have a timestamp that converts without
  raising to an invalid date (such as \<open>not-a-date\<close>). A query with a start or an end
  date never returns the event. The query is answered with status 200 unless a
  conversion raises on some stored value, and then with status 500. The same query
  without date bounds returns the event with status 200 when the event passes the
  user and page filters and the user filter does not raise.
\<close>

theorem unparseable_timestamp_excluded:
  assumes "e \<in> set (readDB d)" and "newDate B (timestamp e) = Inr None"
  shows "(supplied (q_startDate q) \<or> supplied (q_endDate q)
            \<longrightarrow> e \<notin> set (returned_events (get_analytics_clickstream B q d)))
         \<and> a_status (get_analytics_clickstream B q d)
             = (if analytics_raises B q (readDB d) then 500 else 200)
         \<and> (matches_user_page B q e
              \<and> \<not> (supplied (q_userId q) \<and> list_ex (\<lambda>x. unconvertible (userId x)) (readDB d))
            \<longrightarrow> a_status (get_analytics_clickstream B
                             (q\<lparr>q_startDate := None, q_endDate := None\<rparr>) d) = 200
                \<and> e \<in> set (returned_events (get_analytics_clickstream B
                                   (q\<lparr>q_startDate := None, q_endDate := None\<rparr>) d)))"
proof -
  let ?q' = "q\<lparr>q_startDate := None, q_endDate := None\<rparr>"
  have tv: "time_value B (timestamp e) = None"
    using assms(2) by (simp add: time_value_def)
  have "a_status (get_analytics_clickstream B q d)
          = (if analytics_raises B q (readDB d) then 500 else 200)"
    by (simp add: analytics_reply_char analytics_ok_def analytics_failed_def)
  moreover have "e \<notin> set (returned_events (get_analytics_clickstream B q d))"
    if "supplied (q_startDate q) \<or> supplied (q_endDate q)"
    using matches_bounded_invalid[OF tv that]
    by (simp add: analytics_reply_char analytics_ok_def analytics_failed_def returned_events_def)
  moreover have "a_status (get_analytics_clickstream B ?q' d) = 200
                 \<and> e \<in> set (returned_events (get_analytics_clickstream B ?q' d))"
    if "matches_user_page B q e
        \<and> \<not> (supplied (q_userId q) \<and> list_ex (\<lambda>x. unconvertible (userId x)) (readDB d))"
  proof -
    have nr: "\<not> analytics_raises B ?q' (readDB d)"
      using that by (simp add: analytics_raises_def)
    have "matches B ?q' e"
      using that by (simp add: matches_def matches_user_page_def)
    then show ?thesis using nr assms(1)
      by (simp add: analytics_reply_char analytics_ok_def returned_events_def)
  qed
  ultimately show ?thesis by blast
qed

theorem unparseable_timestamp_excluded_witness:
  "ev_b \<in> set (readDB sample_db) \<and> newDate sample_builtins (timestamp ev_b) = Inr None
   \<and> supplied (q_startDate since_query)
   \<and> matches_user_page sample_builtins since_query ev_b
   \<and> a_status (get_analytics_clickstream sample_builtins since_query sample_db) = 200
   \<and> ev_b \<notin> set (returned_events (get_analytics_clickstream sample_builtins since_query sample_db))
   \<and> ev_b \<in> set (returned_events (get_analytics_clickstream sample_builtins
                          (since_query\<lparr>q_startDate := None, q_endDate := None\<rparr>) sample_db))"
  using unparseable_timestamp_excluded[OF since_query_facts(1,2), of since_query] since_query_facts
  by simp

text \<open>
  C7 (as stated, refuted): the log \<open>poisoned_db\<close> holds an event with the timestamp
  \<open>not-a-date\<close> and an event whose timestamp is an object with an own property
  \<open>toString\<close>; the endpoint stores both as they are sent. The query with a start date
  raises on the second event and is answered with the failure answer, status 500.
\<close>

theorem unconvertible_timestamp_counterexample:
  "ev_b \<in> set (readDB poisoned_db)
   \<and> timestamp ev_b = Some (JStr ''not-a-date'')
   \<and> supplied (q_startDate since_query)
   \<and> get_analytics_clickstream sample_builtins since_query poisoned_db = analytics_failed
   \<and> a_status analytics_failed = 500"
  by (simp add: analytics_reply_char analytics_raises_def readDB_def poisoned_db_def
        since_query_def no_query_def ev_fields matches_user_page_def loosely_equal_def
        analytics_failed_def)

section \<open>The history of one user\<close>

text \<open>
  C4 (the code at the failing input): the log \<open>sample_db\<close> holds, for the user
  \<open>alice\<close>, an event of 1 January, an event with the timestamp \<open>not-a-date\<close> and an
  event of 2 January, in this order. The comparator is NaN next to the invalid date,
  the sort takes the three events for one ascending run and leaves them as they are,
  and the answer lists the event of 1 January before the event of 2 January.
\<close>

theorem get_clickstream_user_unsorted:
  "get_clickstream_user sample_builtins ''alice'' sample_db =
     \<lparr> u_status = 200, u_success = True, u_message = None, u_userId = Some ''alice'',
       totalActions = Some 3, u_data = Some [ev_a, ev_b, ev_c] \<rparr>
   \<and> newDate sample_builtins (timestamp ev_a) = Inr (Some 1704099600000)
   \<and> newDate sample_builtins (timestamp ev_c) = Inr (Some 1704186000000)
   \<and> (1704099600000 :: int) < 1704186000000"
  by (simp add: get_clickstream_user_def Let_def sample_log ev_fields sample_numbers sample_dates
        array_sort_def by_timestamp_desc_def Compare_def)

section \<open>Quiz completion and the High Achiever badge\<close>

text \<open>
  The rounding of a positive number to a double, determined by its binary exponent
  and its 53-bit significand.
\<close>

lemma ilog2_bounds:
  assumes "0 < x"
  shows "2 powi ilog2 x \<le> x \<and> x < 2 powi (ilog2 x + 1)"
proof -
  obtain p q where pq: "quotient_of x = (p, q)" by force
  have q: "q > 0" using quotient_of_denom_pos[OF pq] .
  have x: "x = of_int p / of_int q" using quotient_of_div[OF pq] .
  have p: "p > 0" using assms q x by (simp add: zero_less_divide_iff)
  define bp where "bp = floorlog 2 (nat p)"
  define bq where "bq = floorlog 2 (nat q)"
  have bp: "2 ^ (bp - 1) \<le> nat p" "nat p < 2 ^ bp"
    using floorlog_bounds[of "nat p" 2] p by (simp_all add: bp_def)
  have bq: "2 ^ (bq - 1) \<le> nat q" "nat q < 2 ^ bq"
    using floorlog_bounds[of "nat q" 2] q by (simp_all add: bq_def)
  have bp1: "bp \<ge> 1" using bp(2) p by (cases bp) auto
  have bq1: "bq \<ge> 1" using bq(2) q by (cases bq) auto
  have P: "(2::rat) ^ (bp - 1) \<le> of_int p" "of_int p < (2::rat) ^ bp"
    using bp p by auto
  have Q: "(2::rat) ^ (bq - 1) \<le> of_int q" "of_int q < (2::rat) ^ bq"
    using bq q by auto
  have qpos: "(0::rat) < of_int q" using q by simp
  have e1: "(2::rat) powi (int bp - int bq + 1) = 2 ^ bp / 2 ^ (bq - 1)"
  proof -
    have "int bp - int bq + 1 = int bp - int (bq - 1)" using bq1 by simp
    then have "(2::rat) powi (int bp - int bq + 1) = 2 powi (int bp - int (bq - 1))" by (simp only:)
    also have "\<dots> = 2 powi int bp / 2 powi int (bq - 1)" by (rule power_int_diff) simp
    finally show ?thesis by (simp only: power_int_of_nat)
  qed
  have e2: "(2::rat) powi (int bp - int bq - 1) = 2 ^ (bp - 1) / 2 ^ bq"
  proof -
    have "int bp - int bq - 1 = int (bp - 1) - int bq" using bp1 by simp
    then have "(2::rat) powi (int bp - int bq - 1) = 2 powi (int (bp - 1) - int bq)" by (simp only:)
    also have "\<dots> = 2 powi int (bp - 1) / 2 powi int bq" by (rule power_int_diff) simp
    finally show ?thesis by (simp only: power_int_of_nat)
  qed
  have up: "x < 2 powi (int bp - int bq + 1)"
    unfolding e1 x using P Q qpos p by (intro frac_less) simp_all
  have lo: "2 powi (int bp - int bq - 1) < x"
    unfolding e2 x using P Q qpos p by (intro frac_less2) simp_all
  have d: "ilog2 x = (if 2 powi (int bp - int bq) \<le> x then int bp - int bq else int bp - int bq - 1)"
    by (simp add: ilog2_def pq bp_def bq_def Let_def)
  show ?thesis
    using up lo unfolding d by simp
qed

lemma ilog2_unique:
  assumes "0 < x" and "2 powi e \<le> x" and "x < 2 powi (e + 1)"
  shows "ilog2 x = e"
proof (rule antisym)
  show "ilog2 x \<le> e"
  proof (rule ccontr)
    assume "\<not> ilog2 x \<le> e"
    then have "e + 1 \<le> ilog2 x" by simp
    then have "(2::rat) powi (e + 1) \<le> 2 powi ilog2 x" by (intro power_int_increasing) simp_all
    then show False using ilog2_bounds[OF assms(1)] assms(3) by simp
  qed
  show "e \<le> ilog2 x"
  proof (rule ccontr)
    assume "\<not> e \<le> ilog2 x"
    then have "ilog2 x + 1 \<le> e" by simp
    then have "(2::rat) powi (ilog2 x + 1) \<le> 2 powi e" by (intro power_int_increasing) simp_all
    then show False using ilog2_bounds[OF assms(1)] assms(2) by simp
  qed
qed

lemma round_half_even_near:
  assumes "of_int m - 1 / 2 < y" and "y < of_int m + 1 / 2"
  shows "round_half_even y = m"
proof (cases "of_int m \<le> y")
  case True
  then have f: "\<lfloor>y\<rfloor> = m" using assms(2) by (intro floor_unique) simp_all
  show ?thesis using assms(2) by (simp add: round_half_even_def f Let_def)
next
  case False
  then have f: "\<lfloor>y\<rfloor> = m - 1" using assms(1) by (intro floor_unique) simp_all
  show ?thesis using assms(1) False by (simp add: round_half_even_def f Let_def)
qed

lemma fl_eqI:
  assumes "0 < x" and "2 powi e \<le> x" and "x < 2 powi (e + 1)"
    and "of_int m - 1 / 2 < x / 2 powi (e - 52)" and "x / 2 powi (e - 52) < of_int m + 1 / 2"
  shows "fl x = of_int m * 2 powi (e - 52)"
proof -
  have "ilog2 \<bar>x\<bar> = e" using assms(1-3) by (simp add: ilog2_unique)
  moreover have "round_half_even (x / 2 powi (e - 52)) = m"
    using assms(4,5) by (rule round_half_even_near)
  ultimately show ?thesis using assms(1) by (simp add: fl_def Let_def)
qed

text \<open>
  Two values of the percentage: 8 of 10 is 80 (the product of the rounded quotient with
  100 rounds to 80 exactly), and 23 of 40 is 57 (the rounded quotient is below 0.575 and
  the rounded product below 57.5), where the exact quotient would round to 58.
\<close>

lemma percentage_8_of_10: "percentage 8 10 = Fin 80"
proof -
  have 1: "fl (of_int (8::int) / of_int (10::int)) = 3602879701896397 / 4503599627370496"
    using fl_eqI[of "8 / 10" "-1" 7205759403792794] by (simp add: power_int_minus)
  have 2: "fl (3602879701896397 / 4503599627370496 * 100) = 80"
    using fl_eqI[of "3602879701896397 / 4503599627370496 * 100" 6 5629499534213120]
    by (simp add: power_int_minus)
  have 3: "math_round 80 = 80"
    unfolding math_round_def by (rule floor_unique) simp_all
  show ?thesis unfolding percentage_def 1 2 3 by simp
qed

lemma percentage_23_of_40: "percentage 23 40 = Fin 57"
proof -
  have 1: "fl (of_int (23::int) / of_int (40::int)) = 2589569785738035 / 4503599627370496"
    using fl_eqI[of "23 / 40" "-1" 5179139571476070] by (simp add: power_int_minus)
  have 2: "fl (2589569785738035 / 4503599627370496 * 100) = 8092405580431359 / 140737488355328"
    using fl_eqI[of "2589569785738035 / 4503599627370496 * 100" 5 8092405580431359]
    by (simp add: power_int_minus)
  have 3: "math_round (8092405580431359 / 140737488355328) = 57"
    unfolding math_round_def by (rule floor_unique) simp_all
  show ?thesis unfolding percentage_def 1 2 3 by simp
qed

lemma quiz_data_percentage:
  "opt_get (Some (obj [(''courseId'', c), (''score'', Some (JNum 8)),
                   (''totalQuestions'', Some (JNum 10)),
                   (''percentage'', Some (json_of_num (percentage 8 10))),
                   (''timeSpent'', t),
                   (''completedAt'', Some (JStr x))])) ''percentage'' = Some (JNum 80)"
  by (cases c; cases t) (simp_all add: obj_def percentage_8_of_10 List.map_filter_simps)

lemma trackQuizComplete_request:
  assumes "isInitialized svc"
  shows "requests (trackQuizComplete svc br net now c s n t) =
           [clickstreamEvent svc br ''quiz_complete''
              (obj [(''courseId'', c), (''score'', Some (JNum (of_int s))),
                    (''totalQuestions'', Some (JNum (of_int n))),
                    (''percentage'', Some (json_of_num (percentage s n))),
                    (''timeSpent'', t),
                    (''completedAt'', Some (JStr now))])]"
  unfolding trackQuizComplete_def trackEvent_initialized[OF assms] Let_def
  by (simp split: option.splits)

lemma progress_step_quizzes:
  "acc_quizzesTaken (progress_step acc e) =
     acc_quizzesTaken acc @ (if event_type_of e = JStr ''quiz_complete'' then [quiz_of e] else [])"
  by (simp add: progress_step_def Let_def quiz_of_def percent_of_def)

lemma progress_fold_quizzes:
  "acc_quizzesTaken (foldl progress_step acc es) =
     acc_quizzesTaken acc
       @ map quiz_of (filter (\<lambda>e. event_type_of e = JStr ''quiz_complete'') es)"
  by (induction es arbitrary: acc) (simp_all add: progress_step_quizzes)

lemma some_high_char:
  "some_high B (map quiz_of es) =
     (if list_ex (\<lambda>e. unconvertible (percent_of e)) (takeWhile (\<lambda>e. \<not> scores_high B e) es)
      then Inl TypeError
      else Inr (list_ex (scores_high B) es))"
proof (induction es)
  case Nil
  then show ?case by simp
next
  case (Cons e es)
  show ?case
  proof (cases "to_number B (percent_of e)")
    case (Inl err)
    then have "unconvertible (percent_of e)" "\<not> scores_high B e"
      using to_number_raises[of B "percent_of e"] by (simp_all add: error_is scores_high_def)
    then show ?thesis using Inl by (simp add: quiz_of_def error_is)
  next
    case (Inr n)
    then have nu: "\<not> unconvertible (percent_of e)"
      using to_number_raises[of B "percent_of e"] by simp
    have sh: "scores_high B e = num_ge n 80"
      by (simp add: scores_high_def Inr)
    show ?thesis using Inr Cons.IH nu by (simp add: quiz_of_def sh)
  qed
qed

lemma dates_char:
  "map_try (\<lambda>event. toDateString B (timestamp event)) (es :: event list) =
     (if list_ex (\<lambda>e. unconvertible (timestamp e)) es then Inl TypeError
      else Inr (map (\<lambda>e. map_option (LocalDay B) (time_value B (timestamp e))) es))"
proof -
  have r: "(toDateString B (timestamp x) = Inl TypeError) = unconvertible (timestamp x)" for x :: event
    using newDate_raises[of B "timestamp x"]
    by (cases "newDate B (timestamp x)") (simp_all add: toDateString_def error_is)
  have v: "(case toDateString B (timestamp x) of Inr y \<Rightarrow> y)
             = map_option (LocalDay B) (time_value B (timestamp x))"
    if "\<not> unconvertible (timestamp x)" for x :: event
    using that newDate_raises[of B "timestamp x"]
    by (cases "newDate B (timestamp x)") (simp_all add: toDateString_def time_value_def error_is)
  have "map (\<lambda>x. case toDateString B (timestamp x) of Inr y \<Rightarrow> y) es
          = map (\<lambda>e. map_option (LocalDay B) (time_value B (timestamp e))) es"
    if "\<not> list_ex (\<lambda>e. unconvertible (timestamp e)) es"
    using that by (intro map_cong refl v) (auto simp: list_ex_iff)
  then show ?thesis
    by (simp add: map_try_char r)
qed

lemma progress_char:
  "fst (processProgressData B h a) =
     (if progress_raises B (h ! a) then Inl TypeError
      else Inr (case fst (processProgressData B h a) of Inr p \<Rightarrow> p))"
  "snd (processProgressData B h a) = h"
proof -
  let ?cs = "h ! a"
  let ?acc = "foldl progress_step
                    \<lparr> acc_coursesViewed = [], acc_quizzesTaken = [], acc_videoWatched = [],
                      acc_textContentViewed = [] \<rparr> ?cs"
  have q: "acc_quizzesTaken ?acc = map quiz_of (filter (\<lambda>e. event_type_of e = JStr ''quiz_complete'') ?cs)"
    by (simp add: progress_fold_quizzes)
  show "snd (processProgressData B h a) = h"
    by (simp add: processProgressData_def Let_def split: sum.splits)
  show "fst (processProgressData B h a) =
     (if progress_raises B (h ! a) then Inl TypeError
      else Inr (case fst (processProgressData B h a) of Inr p \<Rightarrow> p))"
  proof (cases "?cs = []")
    case True
    then show ?thesis by (simp add: processProgressData_def progress_raises_def)
  next
    case False
    then show ?thesis
      by (simp add: processProgressData_def Let_def achievements_of_def q some_high_char
            dates_char progress_raises_def)
  qed
qed

lemma high_achiever_awarded:
  assumes "fst (processProgressData B h a) = Inr p"
    and "e \<in> set (h ! a)" and "event_type_of e = JStr ''quiz_complete''"
    and "scores_high B e"
  shows "\<lparr> title = ''High Achiever'', description = ''Scored 80% or higher on a quiz'',
            earned = True \<rparr> \<in> set (achievements p)"
proof -
  let ?cs = "h ! a"
  let ?qs = "filter (\<lambda>e. event_type_of e = JStr ''quiz_complete'') ?cs"
  have ne: "?cs \<noteq> []" using assms(2) by auto
  have hi: "list_ex (scores_high B) ?qs"
    using assms(2-4) by (auto simp: list_ex_iff)
  have nr: "\<not> progress_raises B ?cs"
    using assms(1) progress_char(1)[of B h a] by (auto split: if_splits)
  then have sh: "some_high B (map quiz_of ?qs) = Inr True"
    using hi by (simp add: some_high_char progress_raises_def)
  have nd: "\<not> list_ex (\<lambda>e. unconvertible (timestamp e)) ?cs"
    using nr by (simp add: progress_raises_def)
  show ?thesis
    using assms(1) ne sh nd
    by (auto simp: processProgressData_def Let_def achievements_of_def progress_fold_quizzes
          dates_char)
qed

lemma quiz_request_sent:
  "requests (trackQuizComplete sample_service sample_browser offline
        ''2024-01-04T08:59:59.999Z'' (Some (JNum 3)) 8 10 (Some (JNum 95))) = [body sample_quiz_request]"
  by (simp add: trackQuizComplete_request sample_service_def sample_quiz_request_def)

lemma stored_quiz_fields:
  "event_type_of (clickData sample_quiz_request) = JStr ''quiz_complete''"
  "percent_of (clickData sample_quiz_request) = Some (JNum 80)"
  "timestamp (clickData sample_quiz_request) = Some (JStr ''2024-01-04T09:00:00.000Z'')"
  "scores_high sample_builtins (clickData sample_quiz_request)"
proof -
  have d: "eventData (clickData sample_quiz_request) = Some (obj [(''courseId'', Some (JNum 3)), (''score'', Some (JNum 8)),
               (''totalQuestions'', Some (JNum 10)),
               (''percentage'', Some (json_of_num (percentage 8 10))),
               (''timeSpent'', Some (JNum 95)),
               (''completedAt'', Some (JStr ''2024-01-04T08:59:59.999Z''))])"
    by (simp add: clickData_def sample_quiz_request_def sample_request_def clickstreamEvent_def Let_def)
  show "event_type_of (clickData sample_quiz_request) = JStr ''quiz_complete''"
    by (simp add: event_type_of_def clickData_def sample_quiz_request_def sample_request_def
          clickstreamEvent_def Let_def js_or_def)
  show p: "percent_of (clickData sample_quiz_request) = Some (JNum 80)"
    unfolding percent_of_def d quiz_data_percentage by (simp add: js_or_def)
  show "timestamp (clickData sample_quiz_request) = Some (JStr ''2024-01-04T09:00:00.000Z'')"
    by (simp add: clickData_def sample_quiz_request_def sample_request_def clickstreamEvent_def
          Let_def js_or_def sample_browser_def)
  show "scores_high sample_builtins (clickData sample_quiz_request)"
    by (simp add: scores_high_def p)
qed

lemma ev_q_fields:
  "event_type_of ev_q = JStr ''quiz_complete''"
  "percent_of ev_q = Some (JObj [(''toString'', JNum 1)])"
  "timestamp ev_q = Some (JStr ''2024-01-01T09:00:00.000Z'')"
  "\<not> scores_high sample_builtins ev_q"
  by (simp_all add: ev_q_def event_type_of_def percent_of_def js_or_def scores_high_def
        ToPrimitive_def blank_event_def blank_payload_def payload.extend_def)

text \<open>
  C8 (as the code behaves): \<open>trackQuizComplete\<close> with score 8 and 10 questions sends
  an event whose \<open>eventData.percentage\<close> is 80, and the endpoint stores it so. The
  progress aggregation over a sequence that contains the stored event raises exactly
  when \<open>progress_raises\<close> holds of the sequence (the percentage of a quiz before the
  first high score, or some timestamp, cannot be converted); whenever it returns, the
  High Achiever achievement is among the achievements.
\<close>

theorem quiz_complete_high_achiever:
  assumes "isInitialized svc"
    and "requests (trackQuizComplete svc br net completedAt courseId 8 10 timeSpent) = [body req]"
    and "clickData req \<in> set (h ! a)"
  shows "opt_get (eventData (body req)) ''percentage'' = Some (JNum 80)
         \<and> opt_get (eventData (clickData req)) ''percentage'' = Some (JNum 80)
         \<and> (fst (processProgressData B h a) = Inl TypeError) = progress_raises B (h ! a)
         \<and> (\<forall>p. fst (processProgressData B h a) = Inr p \<longrightarrow>
                \<lparr> title = ''High Achiever'', description = ''Scored 80% or higher on a quiz'',
                  earned = True \<rparr> \<in> set (achievements p))"
proof -
  let ?data = "obj [(''courseId'', courseId), (''score'', Some (JNum (of_int 8))),
                    (''totalQuestions'', Some (JNum (of_int 10))),
                    (''percentage'', Some (json_of_num (percentage 8 10))),
                    (''timeSpent'', timeSpent),
                    (''completedAt'', Some (JStr completedAt))]"
  have body: "body req = clickstreamEvent svc br ''quiz_complete'' ?data"
    using trackQuizComplete_request[OF assms(1), of br net completedAt courseId 8 10 timeSpent]
      assms(2)
    by simp
  have ty: "eventType (body req) = Some (JStr ''quiz_complete'')"
    and dat: "eventData (body req) = Some ?data"
    by (simp_all add: body clickstreamEvent_def)
  have p: "opt_get (eventData (body req)) ''percentage'' = Some (JNum 80)"
    unfolding dat using quiz_data_percentage[of courseId timeSpent completedAt] by simp
  have stored: "eventType (clickData req) = Some (JStr ''quiz_complete'')"
    "eventData (clickData req) = eventData (body req)"
    by (simp_all add: clickData_def Let_def ty)
  have et: "event_type_of (clickData req) = JStr ''quiz_complete''"
    by (simp add: event_type_of_def stored js_or_def)
  have hi: "scores_high B (clickData req)"
    by (simp add: scores_high_def percent_of_def stored p js_or_def)
  have r: "(fst (processProgressData B h a) = Inl TypeError) = progress_raises B (h ! a)"
    using progress_char(1)[of B h a] by (auto split: if_splits)
  have "\<lparr> title = ''High Achiever'', description = ''Scored 80% or higher on a quiz'',
              earned = True \<rparr> \<in> set (achievements p')"
    if "fst (processProgressData B h a) = Inr p'" for p'
    using high_achiever_awarded[OF that assms(3) et hi] .
  then show ?thesis using p stored r by simp
qed

theorem quiz_complete_high_achiever_witness:
  "isInitialized sample_service
   \<and> requests (trackQuizComplete sample_service sample_browser offline
        ''2024-01-04T08:59:59.999Z'' (Some (JNum 3)) 8 10 (Some (JNum 95))) = [body sample_quiz_request]
   \<and> clickData sample_quiz_request \<in> set ([[ev_a, clickData sample_quiz_request]] ! 0)
   \<and> opt_get (eventData (clickData sample_quiz_request)) ''percentage'' = Some (JNum 80)
   \<and> \<not> progress_raises sample_builtins [ev_a, clickData sample_quiz_request]
   \<and> map_sum id (\<lambda>p. \<lparr> title = ''High Achiever'',
                          description = ''Scored 80% or higher on a quiz'', earned = True \<rparr>
                        \<in> set (achievements p))
         (fst (processProgressData sample_builtins [[ev_a, clickData sample_quiz_request]] 0))
       = Inr True"
proof -
  have h1: "isInitialized sample_service" by (simp add: sample_service_def)
  have h3: "clickData sample_quiz_request \<in> set ([[ev_a, clickData sample_quiz_request]] ! 0)"
    by simp
  have et: "event_type_of ev_a = JStr ''page_view''"
    by (simp add: event_type_of_def ev_a_def js_or_def)
  have nr: "\<not> progress_raises sample_builtins [ev_a, clickData sample_quiz_request]"
    by (simp add: progress_raises_def et stored_quiz_fields ev_fields)
  note t = quiz_complete_high_achiever[OF h1 quiz_request_sent h3, of sample_builtins]
  from t nr have "fst (processProgressData sample_builtins
                         [[ev_a, clickData sample_quiz_request]] 0) \<noteq> Inl TypeError"
    by simp
  then obtain p where p: "fst (processProgressData sample_builtins
                                 [[ev_a, clickData sample_quiz_request]] 0) = Inr p"
    by (cases "fst (processProgressData sample_builtins
                      [[ev_a, clickData sample_quiz_request]] 0)") (auto simp: error_is)
  from t p have "\<lparr> title = ''High Achiever'', description = ''Scored 80% or higher on a quiz'',
                    earned = True \<rparr> \<in> set (achievements p)"
    by blast
  then show ?thesis using t h1 quiz_request_sent nr p by simp
qed

text \<open>
  C8 (as stated, refuted): in the sequence of a completed quiz whose percentage is an
  object with an own property \<open>toString\<close>, followed by the stored event of the quiz
  with 8 of 10, the test \<open>quiz.percentage >= 80\<close> raises on the first quiz and the
  aggregation returns no achievements at all.
\<close>

theorem unconvertible_percentage_counterexample:
  "clickData sample_quiz_request \<in> set ([[ev_q, clickData sample_quiz_request]] ! 0)
   \<and> opt_get (eventData (clickData sample_quiz_request)) ''percentage'' = Some (JNum 80)
   \<and> fst (processProgressData sample_builtins [[ev_q, clickData sample_quiz_request]] 0)
       = Inl TypeError"
proof -
  have "progress_raises sample_builtins [ev_q, clickData sample_quiz_request]"
    by (simp add: progress_raises_def ev_q_fields stored_quiz_fields)
  then have "fst (processProgressData sample_builtins [[ev_q, clickData sample_quiz_request]] 0)
       = Inl TypeError"
    using progress_char(1)[of sample_builtins "[[ev_q, clickData sample_quiz_request]]" 0]
    by simp
  moreover have "opt_get (eventData (clickData sample_quiz_request)) ''percentage'' = Some (JNum 80)"
    using stored_quiz_fields(2) by (simp add: percent_of_def js_or_def split: if_splits)
  ultimately show ?thesis by simp
qed

section \<open>The learning streak\<close>

lemma streak_loop_stop: "Some d \<notin> set ks \<Longrightarrow> streak_loop ks d n = n"
  by (subst streak_loop.simps) simp

lemma streak_loop_step: "Some d \<in> set ks \<Longrightarrow> streak_loop ks d n = streak_loop ks (d - 1) (n + 1)"
  by (subst streak_loop.simps) simp

lemma streak_two:
  assumes "Some d \<in> set ks" and "Some (d - 1) \<in> set ks" and "Some (d - 2) \<notin> set ks"
  shows "streak_loop ks d 0 = 2"
proof -
  have "streak_loop ks d 0 = streak_loop ks (d - 1) (0 + 1)"
    by (rule streak_loop_step[OF assms(1)])
  also have "\<dots> = streak_loop ks (d - 1 - 1) (0 + 1 + 1)"
    by (rule streak_loop_step[OF assms(2)])
  also have "\<dots> = 0 + 1 + 1"
    using assms(3) by (simp add: streak_loop_stop)
  finally show ?thesis by simp
qed

lemma day_key:
  "toDateString B v = Inr k \<Longrightarrow> map_option (LocalDay B) (time_value B v) = k"
  by (auto simp: toDateString_def time_value_def split: sum.splits)

lemma day_key_iff:
  "\<not> unconvertible v \<Longrightarrow>
     (toDateString B v = Inr k) = (map_option (LocalDay B) (time_value B v) = k)"
  using newDate_raises[of B v]
  by (cases "newDate B v") (auto simp: toDateString_def time_value_def error_is)

lemma progress_streak:
  assumes "fst (processProgressData B h a) = Inr p"
  shows "learningStreak p = card ((\<lambda>e. toDateString B (timestamp e)) ` set (h ! a))"
proof (cases "h ! a = []")
  case True
  then show ?thesis using assms by (auto simp: processProgressData_def)
next
  case False
  let ?cs = "h ! a"
  let ?k = "\<lambda>e::event. map_option (LocalDay B) (time_value B (timestamp e))"
  have nr: "\<not> progress_raises B ?cs"
    using assms progress_char(1)[of B h a] by (auto split: if_splits)
  then have nd: "\<not> list_ex (\<lambda>e. unconvertible (timestamp e)) ?cs"
    by (simp add: progress_raises_def)
  have keys: "toDateString B (timestamp e) = Inr (?k e)" if "e \<in> set ?cs" for e
    using that nd day_key_iff[of "timestamp e" B "?k e"] by (auto simp: list_ex_iff)
  have "learningStreak p = length (remdups (map ?k ?cs))"
    using assms False nd
    by (auto simp: processProgressData_def Let_def dates_char split: sum.splits)
  also have "\<dots> = card (?k ` set ?cs)"
    by (simp add: length_remdups_card_conv)
  also have "?k ` set ?cs = (\<lambda>x. case x of Inr k \<Rightarrow> k) ` ((\<lambda>e. toDateString B (timestamp e)) ` set ?cs)"
    using keys by (force simp: image_iff)
  also have "card \<dots> = card ((\<lambda>e. toDateString B (timestamp e)) ` set ?cs)"
  proof (rule card_image)
    show "inj_on (\<lambda>x. case x of Inr k \<Rightarrow> k) ((\<lambda>e. toDateString B (timestamp e)) ` set ?cs)"
      using keys by (auto simp: inj_on_def)
  qed
  finally show ?thesis .
qed

lemma streak_keys:
  "toDateString sample_builtins (timestamp ev_a) = Inr (Some 19723)"
  "toDateString sample_builtins (timestamp ev_n) = Inr (Some 19725)"
  "toDateString sample_builtins (timestamp ev_t) = Inr (Some 19726)"
  "LocalDay sample_builtins sample_today = 19726"
  by (simp_all add: toDateString_def ev_a_def ev_n_def ev_t_def sample_today_def sample_builtins_def
        blank_event_def blank_payload_def payload.extend_def)

lemma streak_log_clean:
  "\<not> list_ex (\<lambda>e. unconvertible (timestamp e)) streak_log"
  "\<not> progress_raises sample_builtins streak_log"
  by (simp_all add: streak_log_def progress_raises_def ev_a_def ev_n_def ev_t_def
        event_type_of_def js_or_def blank_event_def blank_payload_def payload.extend_def)

text \<open>
  C2 (as the code behaves): let a sequence have events on today, on yesterday and on
  the day three days ago, and no event on the day two days ago. The streak of
  \<open>loadLearningAnalytics\<close> is 2, the walk back from today ending at the gap, unless
  some timestamp cannot be converted, and then the function raises. The
  \<open>learningStreak\<close> of \<open>processProgressData\<close> is, whenever the function returns, the
  number of distinct day strings of the sequence, which is at least 3 here.
\<close>

theorem learning_streak_gap:
  assumes "e0 \<in> set (h ! a)" and "toDateString B (timestamp e0) = Inr (Some (LocalDay B today))"
    and "e1 \<in> set (h ! a)" and "toDateString B (timestamp e1) = Inr (Some (LocalDay B today - 1))"
    and "e3 \<in> set (h ! a)" and "toDateString B (timestamp e3) = Inr (Some (LocalDay B today - 3))"
    and "\<forall>e \<in> set (h ! a). toDateString B (timestamp e) \<noteq> Inr (Some (LocalDay B today - 2))"
  shows "loadLearningAnalytics_learningStreak B today (h ! a)
           = (if list_ex (\<lambda>e. unconvertible (timestamp e)) (h ! a) then Inl TypeError else Inr 2)
         \<and> (fst (processProgressData B h a) = Inl TypeError) = progress_raises B (h ! a)
         \<and> (\<forall>p. fst (processProgressData B h a) = Inr p \<longrightarrow>
                learningStreak p = card ((\<lambda>e. toDateString B (timestamp e)) ` set (h ! a))
                \<and> 3 \<le> learningStreak p)"
proof -
  let ?cs = "h ! a"
  let ?key = "\<lambda>e::event. toDateString B (timestamp e)"
  let ?k = "\<lambda>e::event. map_option (LocalDay B) (time_value B (timestamp e))"
  let ?d = "LocalDay B today"
  have walk: "loadLearningAnalytics_learningStreak B today ?cs = Inr 2"
    if nd: "\<not> list_ex (\<lambda>e. unconvertible (timestamp e)) ?cs"
  proof -
    have "Some ?d \<in> set (map ?k ?cs)"
      using assms(1) day_key[OF assms(2)] by force
    moreover have "Some (?d - 1) \<in> set (map ?k ?cs)"
      using assms(3) day_key[OF assms(4)] by force
    moreover have "Some (?d - 2) \<notin> set (map ?k ?cs)"
    proof
      assume "Some (?d - 2) \<in> set (map ?k ?cs)"
      then have "\<exists>e\<in>set ?cs. Some (?d - 2) = ?k e" by (simp only: set_map image_iff)
      then obtain e where e: "e \<in> set ?cs" "?k e = Some (?d - 2)" by metis
      then have "\<not> unconvertible (timestamp e)" using nd by (auto simp: list_ex_iff)
      then have "?key e = Inr (Some (?d - 2))" using e(2) by (simp add: day_key_iff)
      then show False using assms(7) e(1) by blast
    qed
    ultimately have "streak_loop (map ?k ?cs) ?d 0 = 2" by (rule streak_two)
    then show ?thesis using nd
      by (simp add: loadLearningAnalytics_learningStreak_def dates_char)
  qed
  have raise: "loadLearningAnalytics_learningStreak B today ?cs = Inl TypeError"
    if "list_ex (\<lambda>e. unconvertible (timestamp e)) ?cs"
    using that by (simp add: loadLearningAnalytics_learningStreak_def dates_char)
  have r: "(fst (processProgressData B h a) = Inl TypeError) = progress_raises B ?cs"
    using progress_char(1)[of B h a] by (auto split: if_splits)
  have sub: "{Inr (Some ?d), Inr (Some (?d - 1)), Inr (Some (?d - 3))} \<subseteq> ?key ` set ?cs"
    using assms(1-6) by force
  have "card {Inr (Some ?d) :: error + int option, Inr (Some (?d - 1)), Inr (Some (?d - 3))} = 3"
    by simp
  then have three: "3 \<le> card (?key ` set ?cs)"
    using card_mono[OF _ sub] by simp
  have "learningStreak p = card (?key ` set ?cs) \<and> 3 \<le> learningStreak p"
    if "fst (processProgressData B h a) = Inr p" for p
    using progress_streak[OF that] three by simp
  then show ?thesis using walk raise r by auto
qed

theorem learning_streak_gap_witness:
  "ev_t \<in> set ([streak_log] ! 0)
   \<and> toDateString sample_builtins (timestamp ev_t) = Inr (Some (LocalDay sample_builtins sample_today))
   \<and> ev_n \<in> set ([streak_log] ! 0)
   \<and> toDateString sample_builtins (timestamp ev_n) = Inr (Some (LocalDay sample_builtins sample_today - 1))
   \<and> ev_a \<in> set ([streak_log] ! 0)
   \<and> toDateString sample_builtins (timestamp ev_a) = Inr (Some (LocalDay sample_builtins sample_today - 3))
   \<and> list_all (\<lambda>e. toDateString sample_builtins (timestamp e)
                       \<noteq> Inr (Some (LocalDay sample_builtins sample_today - 2))) ([streak_log] ! 0)
   \<and> loadLearningAnalytics_learningStreak sample_builtins sample_today streak_log = Inr 2
   \<and> fst (processProgressData sample_builtins [streak_log] 0) \<noteq> Inl TypeError"
proof -
  have h: "ev_t \<in> set ([streak_log] ! 0)"
    "toDateString sample_builtins (timestamp ev_t) = Inr (Some (LocalDay sample_builtins sample_today))"
    "ev_n \<in> set ([streak_log] ! 0)"
    "toDateString sample_builtins (timestamp ev_n) = Inr (Some (LocalDay sample_builtins sample_today - 1))"
    "ev_a \<in> set ([streak_log] ! 0)"
    "toDateString sample_builtins (timestamp ev_a) = Inr (Some (LocalDay sample_builtins sample_today - 3))"
    "\<forall>e \<in> set ([streak_log] ! 0).
         toDateString sample_builtins (timestamp e) \<noteq> Inr (Some (LocalDay sample_builtins sample_today - 2))"
    by (simp_all add: streak_log_def streak_keys)
  from learning_streak_gap[OF h] h streak_log_clean
  show ?thesis by (simp add: list_all_iff)
qed

text \<open>
  C2 (as stated, refuted): on the events of 4 January (today), 3 January and
  1 January, \<open>processProgressData\<close> returns the learning streak 3.
\<close>

theorem progress_streak_counterexample:
  "toDateString sample_builtins (timestamp ev_t) = Inr (Some (LocalDay sample_builtins sample_today))
   \<and> toDateString sample_builtins (timestamp ev_n) = Inr (Some (LocalDay sample_builtins sample_today - 1))
   \<and> toDateString sample_builtins (timestamp ev_a) = Inr (Some (LocalDay sample_builtins sample_today - 3))
   \<and> map_sum id learningStreak (fst (processProgressData sample_builtins [[ev_a, ev_n, ev_t]] 0))
       = Inr 3"
proof -
  have nr: "\<not> progress_raises sample_builtins ([[ev_a, ev_n, ev_t]] ! 0)"
    using streak_log_clean(2) by (simp add: streak_log_def)
  then obtain p where p: "fst (processProgressData sample_builtins [[ev_a, ev_n, ev_t]] 0) = Inr p"
    using progress_char(1)[of sample_builtins "[[ev_a, ev_n, ev_t]]" 0] by auto
  have "learningStreak p = 3"
    using progress_streak[OF p] by (simp add: streak_keys)
  then show ?thesis using p by (simp add: streak_keys)
qed

section \<open>Aggregation is repeatable\<close>

lemma processAnalytics_contents:
  "h' ! a' = h ! a \<Longrightarrow> fst (processAnalytics B h' a') = fst (processAnalytics B h a)"
  by (simp add: processAnalytics_def slice_last_def reverse_in_place_def Let_def
      split: sum.splits)

lemma processProgressData_contents:
  "h' ! a' = h ! a \<Longrightarrow> fst (processProgressData B h' a') = fst (processProgressData B h a)"
  by (simp add: processProgressData_def Let_def split: sum.splits)

lemma processAnalytics_store:
  "take (length h) (snd (processAnalytics B h a)) = h"
  by (simp add: processAnalytics_def slice_last_def reverse_in_place_def Let_def
      split: sum.splits)

lemma processAnalytics_keeps:
  assumes "a < length h"
  shows "snd (processAnalytics B h a) ! a = h ! a"
proof -
  have "snd (processAnalytics B h a) ! a = take (length h) (snd (processAnalytics B h a)) ! a"
    using assms by simp
  then show ?thesis by (simp only: processAnalytics_store)
qed

lemma processProgressData_store: "snd (processProgressData B h a) = h"
  by (simp add: processProgressData_def Let_def split: sum.splits)

lemma two_event_run:
  "snd (processAnalytics sample_builtins [[ev_a, ev_n]] 0) = [[ev_a, ev_n], [ev_n, ev_a]]"
  "map_sum id recentEvents (fst (processAnalytics sample_builtins [[ev_a, ev_n]] 0))
     = Inr [ev_n, ev_a]"
  "map_sum id totalEvents (fst (processAnalytics sample_builtins [[ev_a, ev_n]] 0)) = Inr 2"
proof -
  have t: "event_type_of ev_a = JStr ''page_view''" "event_type_of ev_n = JStr ''unknown''"
    "opt_get (eventData ev_a) ''courseId'' = None" "opt_get (eventData ev_n) ''courseId'' = None"
    by (simp_all add: event_type_of_def js_or_def ev_a_def ev_n_def blank_event_def
          blank_payload_def payload.extend_def)
  have "\<exists>acc. forEach_try (analytics_step sample_builtins)
               \<lparr> acc_eventTypes = Map.empty, acc_topCourses = Map.empty,
                 acc_quizCompletions = [] \<rparr> ([[ev_a, ev_n]] ! 0) = Inr acc"
    by (simp add: analytics_step_def count_course_def t)
  then obtain acc where acc: "forEach_try (analytics_step sample_builtins)
               \<lparr> acc_eventTypes = Map.empty, acc_topCourses = Map.empty,
                 acc_quizCompletions = [] \<rparr> ([[ev_a, ev_n]] ! 0) = Inr acc" ..
  show "snd (processAnalytics sample_builtins [[ev_a, ev_n]] 0) = [[ev_a, ev_n], [ev_n, ev_a]]"
    "map_sum id recentEvents (fst (processAnalytics sample_builtins [[ev_a, ev_n]] 0))
       = Inr [ev_n, ev_a]"
    "map_sum id totalEvents (fst (processAnalytics sample_builtins [[ev_a, ev_n]] 0)) = Inr 2"
    unfolding processAnalytics_def Let_def acc
    by (simp_all add: slice_last_def reverse_in_place_def)
qed

text \<open>
  C9: a call of \<open>processAnalytics\<close> or of \<open>processProgressData\<close> on an array of the
  store leaves every array that was in the store as it was (\<open>processAnalytics\<close> only
  adds the array of the recent events, the copy that it reverses; \<open>processProgressData\<close>
  changes nothing). A second call on the same array, after the first or after a call of
  the other function, returns what the first returned. What a call returns depends on
  the contents of the array only, in whatever store and at whatever address. On the
  empty array both return the zeroed object and do not raise.
\<close>

theorem aggregate_pure_idempotent:
  assumes "a < length h"
  shows "take (length h) (snd (processAnalytics B h a)) = h
       \<and> snd (processProgressData B h a) = h
       \<and> fst (processAnalytics B (snd (processAnalytics B h a)) a) = fst (processAnalytics B h a)
       \<and> fst (processProgressData B (snd (processProgressData B h a)) a)
           = fst (processProgressData B h a)
       \<and> fst (processProgressData B (snd (processAnalytics B h a)) a)
           = fst (processProgressData B h a)
       \<and> (\<forall>h' a'. h' ! a' = h ! a \<longrightarrow>
             fst (processAnalytics B h' a') = fst (processAnalytics B h a)
             \<and> fst (processProgressData B h' a') = fst (processProgressData B h a))
       \<and> (h ! a = [] \<longrightarrow>
             processAnalytics B h a
               = (Inr \<lparr> totalEvents = 0, uniqueSessions = 0, eventTypes = Map.empty,
                        recentEvents = [], topCourses = Map.empty, quizCompletions = [] \<rparr>, h)
             \<and> processProgressData B h a
               = (Inr \<lparr> totalSessions = 0, coursesViewed = [], quizzesTaken = [],
                        videoWatched = [], textContentViewed = [], achievements = [],
                        learningStreak = 0, totalTimeSpent = 0 \<rparr>, h))"
proof -
  note k = processAnalytics_keeps[OF assms, of B]
  have c3: "fst (processAnalytics B (snd (processAnalytics B h a)) a) = fst (processAnalytics B h a)"
    by (rule processAnalytics_contents[OF k])
  have c4: "fst (processProgressData B (snd (processProgressData B h a)) a)
              = fst (processProgressData B h a)"
    by (simp only: processProgressData_store)
  have c5: "fst (processProgressData B (snd (processAnalytics B h a)) a)
              = fst (processProgressData B h a)"
    by (rule processProgressData_contents[OF k])
  have c6: "\<forall>h' a'. h' ! a' = h ! a \<longrightarrow>
             fst (processAnalytics B h' a') = fst (processAnalytics B h a)
             \<and> fst (processProgressData B h' a') = fst (processProgressData B h a)"
    by (intro allI impI conjI processAnalytics_contents processProgressData_contents)
  have c7: "h ! a = [] \<longrightarrow>
             processAnalytics B h a
               = (Inr \<lparr> totalEvents = 0, uniqueSessions = 0, eventTypes = Map.empty,
                        recentEvents = [], topCourses = Map.empty, quizCompletions = [] \<rparr>, h)
             \<and> processProgressData B h a
               = (Inr \<lparr> totalSessions = 0, coursesViewed = [], quizzesTaken = [],
                        videoWatched = [], textContentViewed = [], achievements = [],
                        learningStreak = 0, totalTimeSpent = 0 \<rparr>, h)"
    by (simp add: processAnalytics_def processProgressData_def)
  show ?thesis
    by (intro conjI processAnalytics_store processProgressData_store c3 c4 c5 c6 c7)
qed

theorem aggregate_pure_idempotent_witness:
  "(0::nat) < length [[ev_a, ev_n]]
   \<and> snd (processAnalytics sample_builtins [[ev_a, ev_n]] 0) = [[ev_a, ev_n], [ev_n, ev_a]]
   \<and> map_sum id recentEvents (fst (processAnalytics sample_builtins [[ev_a, ev_n]] 0))
       = Inr [ev_n, ev_a]
   \<and> fst (processAnalytics sample_builtins [[ev_a, ev_n], [ev_n, ev_a]] 0)
       = fst (processAnalytics sample_builtins [[ev_a, ev_n]] 0)
   \<and> (0::nat) < length [[]::event list]
   \<and> [[]::event list] ! 0 = []
   \<and> map_sum id totalEvents (fst (processAnalytics sample_builtins [[]] 0)) = Inr 0
   \<and> map_sum id learningStreak (fst (processProgressData sample_builtins [[]] 0)) = Inr 0"
proof -
  have a: "(0::nat) < length [[ev_a, ev_n]]" and b: "(0::nat) < length [[]::event list]"
    by simp_all
  from aggregate_pure_idempotent[OF a, of sample_builtins]
  have "fst (processAnalytics sample_builtins
               (snd (processAnalytics sample_builtins [[ev_a, ev_n]] 0)) 0)
          = fst (processAnalytics sample_builtins [[ev_a, ev_n]] 0)"
    by (elim conjE) assumption
  then have again: "fst (processAnalytics sample_builtins [[ev_a, ev_n], [ev_n, ev_a]] 0)
                      = fst (processAnalytics sample_builtins [[ev_a, ev_n]] 0)"
    by (simp only: two_event_run(1))
  from aggregate_pure_idempotent[OF b, of sample_builtins]
  have "[[]::event list] ! 0 = [] \<longrightarrow>
          processAnalytics sample_builtins [[]] 0
            = (Inr \<lparr> totalEvents = 0, uniqueSessions = 0, eventTypes = Map.empty,
                     recentEvents = [], topCourses = Map.empty, quizCompletions = [] \<rparr>, [[]])
          \<and> processProgressData sample_builtins [[]] 0
            = (Inr \<lparr> totalSessions = 0, coursesViewed = [], quizzesTaken = [],
                     videoWatched = [], textContentViewed = [], achievements = [],
                     learningStreak = 0, totalTimeSpent = 0 \<rparr>, [[]])"
    by (elim conjE) assumption
  then have zero: "map_sum id totalEvents (fst (processAnalytics sample_builtins [[]] 0)) = Inr 0"
    "map_sum id learningStreak (fst (processProgressData sample_builtins [[]] 0)) = Inr 0"
    by simp_all
  show ?thesis
    using again zero two_event_run(1,2) by simp
qed

end
